theory Spec2Isabelle
  imports Complex_Main "HOL-Library.Sublist" "HOL-Library.Multiset"
begin

chapter \<open>The phased code-generation core of the Codr agent SDK\<close>

text \<open>
  A shallow embedding of \<^verbatim>\<open>src/lib/llm.ts\<close> (the model picker),
  \<^verbatim>\<open>src/core/code-generator.ts\<close> (the phase orchestrator and the response parser),
  \<^verbatim>\<open>src/core/template-customizer.ts\<close> (the template loader) and
  \<^verbatim>\<open>src/core/template-selector.ts\<close> (the template matcher).

  Conventions of the embedding:
  \<^item> an \<^verbatim>\<open>async\<close> function that may reject returns \<open>error + 'a\<close> (\<open>Inl\<close> is the
    rejection), together with the list of effects it performed, in program order;
  \<^item> remote collaborators (progress store, LLM gateway, object store, file system) and the
    runtime's \<^verbatim>\<open>JSON.parse\<close>, \<^verbatim>\<open>JSON.stringify\<close> and \<^verbatim>\<open>YAML.parse\<close> are fields of the
    record \<open>Env\<close>: every theorem holds for whatever they answer;
  \<^item> JavaScript numbers are \<open>jsnum\<close>: \<open>NaN\<close>, or a finite value held as an exact rational
    (binary rounding is not modelled; the only non-finite value the code can produce is the
    \<open>NaN\<close> of \<^verbatim>\<open>0 / 0\<close>);
  \<^item> strings are \<open>string\<close>; \<^verbatim>\<open>toLowerCase\<close> folds the letters A to Z and leaves every other
    character alone;
  \<^item> a field name that several interfaces of the source share keeps its name in one record
    and carries a short prefix in the others.
\<close>

section \<open>Strings\<close>

definition lower_char :: "char \<Rightarrow> char" where
  "lower_char c =
     (case map_of (zip ''ABCDEFGHIJKLMNOPQRSTUVWXYZ'' ''abcdefghijklmnopqrstuvwxyz'') c of
        None \<Rightarrow> c
      | Some l \<Rightarrow> l)"

definition toLowerCase :: "string \<Rightarrow> string" where
  "toLowerCase s = map lower_char s"

text \<open>\<^verbatim>\<open>s.includes(sub)\<close>: \<open>sub\<close> occurs in \<open>s\<close> as a contiguous block.\<close>

fun includes_str :: "string \<Rightarrow> string \<Rightarrow> bool" where
  "includes_str [] sub = (sub = [])"
| "includes_str (c # cs) sub = (prefix sub (c # cs) \<or> includes_str cs sub)"

text \<open>\<^verbatim>\<open>xs.join(sep)\<close> on a list of strings.\<close>

fun join_str :: "string \<Rightarrow> string list \<Rightarrow> string" where
  "join_str sep [] = []"
| "join_str sep [x] = x"
| "join_str sep (x # y # ys) = x @ sep @ join_str sep (y # ys)"

definition digit_char :: "nat \<Rightarrow> char" where
  "digit_char d = ''0123456789'' ! d"

text \<open>The decimal numeral of a natural number, as a template literal prints it.\<close>

function show_nat :: "nat \<Rightarrow> string" where
  "show_nat n = (if n < 10 then [digit_char n] else show_nat (n div 10) @ [digit_char (n mod 10)])"
  by pat_completeness auto
termination
  by (relation "measure id") auto

section \<open>Errors and numbers\<close>

datatype error = Error string | TypeError string

text \<open>The text of an error inside a template literal (\<^verbatim>\<open>`${error}`\<close>).\<close>

fun error_text :: "error \<Rightarrow> string" where
  "error_text (Error m) = ''Error: '' @ m"
| "error_text (TypeError m) = ''TypeError: '' @ m"

datatype jsnum = NaN | Num rat

fun js_add :: "jsnum \<Rightarrow> jsnum \<Rightarrow> jsnum" where
  "js_add (Num a) (Num b) = Num (a + b)"
| "js_add _ _ = NaN"

fun js_sub :: "jsnum \<Rightarrow> jsnum \<Rightarrow> jsnum" where
  "js_sub (Num a) (Num b) = Num (a - b)"
| "js_sub _ _ = NaN"

fun js_mul :: "jsnum \<Rightarrow> jsnum \<Rightarrow> jsnum" where
  "js_mul (Num a) (Num b) = Num (a * b)"
| "js_mul _ _ = NaN"

text \<open>
  \<^verbatim>\<open>matched.length / requested.length\<close>. The numerator counts a sub-list of the list the
  denominator counts, so a zero denominator comes with a zero numerator, and \<^verbatim>\<open>0 / 0\<close>
  is \<open>NaN\<close>.
\<close>

definition js_ratio :: "nat \<Rightarrow> nat \<Rightarrow> jsnum" where
  "js_ratio k n = (if n = 0 then NaN else Num (of_nat k / of_nat n))"

text \<open>Division by a non-zero constant.\<close>

fun js_div_const :: "jsnum \<Rightarrow> rat \<Rightarrow> jsnum" where
  "js_div_const (Num a) d = Num (a / d)"
| "js_div_const NaN d = NaN"

text \<open>\<^verbatim>\<open>Math.min\<close>: \<open>NaN\<close> if either argument is.\<close>

fun js_min :: "jsnum \<Rightarrow> jsnum \<Rightarrow> jsnum" where
  "js_min (Num a) (Num b) = Num (min a b)"
| "js_min _ _ = NaN"

text \<open>The comparisons \<^verbatim>\<open>>=\<close> and \<^verbatim>\<open>>\<close>: false as soon as an operand is \<open>NaN\<close>.\<close>

fun js_ge :: "jsnum \<Rightarrow> jsnum \<Rightarrow> bool" where
  "js_ge (Num a) (Num b) = (b \<le> a)"
| "js_ge _ _ = False"

fun js_gt :: "jsnum \<Rightarrow> jsnum \<Rightarrow> bool" where
  "js_gt (Num a) (Num b) = (b < a)"
| "js_gt _ _ = False"

text \<open>
  \<^verbatim>\<open>x.toFixed(1)\<close>: one decimal, the nearest tenth, the larger one on a tie. Values of
  \<open>10\<^sup>2\<^sup>1\<close> and more, which print in exponent form, do not occur: the argument is a
  percentage.
\<close>

fun toFixed1 :: "jsnum \<Rightarrow> string" where
  "toFixed1 NaN = ''NaN''"
| "toFixed1 (Num r) =
     (let a = \<bar>r\<bar>;
          n = nat \<lfloor>a * 10 + 1 / 2\<rfloor>;
          body = show_nat (n div 10) @ ''.'' @ show_nat (n mod 10)
      in if r < 0 then ''-'' @ body else body)"

section \<open>Values produced by \<^verbatim>\<open>JSON.parse\<close>\<close>

datatype jsval =
    JUndefined
  | JNull
  | JBool bool
  | JNum rat
  | JStr string
  | JArr "jsval list"
  | JObj "(string \<times> jsval) list"

text \<open>
  \<open>JObj\<close> holds the own properties of a parsed object, one entry per key, in key order;
  \<open>JUndefined\<close> is the value of a property that is not there and never occurs inside a
  parsed value.
\<close>

text \<open>What \<^verbatim>\<open>v || d\<close> and \<^verbatim>\<open>if (v)\<close> test.\<close>

fun truthy :: "jsval \<Rightarrow> bool" where
  "truthy JUndefined = False"
| "truthy JNull = False"
| "truthy (JBool b) = b"
| "truthy (JNum n) = (n \<noteq> 0)"
| "truthy (JStr s) = (s \<noteq> [])"
| "truthy (JArr xs) = True"
| "truthy (JObj ps) = True"

text \<open>
  The own property \<open>k\<close> of a value, \<open>JUndefined\<close> when it has none. It is used for the keys
  \<^verbatim>\<open>path\<close>, \<^verbatim>\<open>content\<close> and \<^verbatim>\<open>files\<close> only, which no primitive, array or prototype
  defines.
\<close>

fun own_prop :: "jsval \<Rightarrow> string \<Rightarrow> jsval" where
  "own_prop (JObj ps) k = (case map_of ps k of None \<Rightarrow> JUndefined | Some v \<Rightarrow> v)"
| "own_prop _ k = JUndefined"

text \<open>Member access \<^verbatim>\<open>v.k\<close>: a \<^verbatim>\<open>TypeError\<close> on \<^verbatim>\<open>null\<close> and \<^verbatim>\<open>undefined\<close>.\<close>

fun get_prop :: "jsval \<Rightarrow> string \<Rightarrow> error + jsval" where
  "get_prop JUndefined k = Inl (TypeError (''Cannot read properties of undefined (reading '' @ k @ '')''))"
| "get_prop JNull k = Inl (TypeError (''Cannot read properties of null (reading '' @ k @ '')''))"
| "get_prop v k = Inr (own_prop v k)"

text \<open>\<^verbatim>\<open>xs.map(f)\<close> with a callback that may throw: the first throw ends the map.\<close>

fun map_throwing :: "('a \<Rightarrow> error + 'b) \<Rightarrow> 'a list \<Rightarrow> error + 'b list" where
  "map_throwing f [] = Inr []"
| "map_throwing f (x # xs) =
     (case f x of
        Inl e \<Rightarrow> Inl e
      | Inr y \<Rightarrow> (case map_throwing f xs of Inl e \<Rightarrow> Inl e | Inr ys \<Rightarrow> Inr (y # ys)))"

section \<open>Model Selection Policy (\<^verbatim>\<open>src/lib/llm.ts\<close>)\<close>

datatype Provider = anthropic | openai | google | openrouter | replicate | googleai

record LLMFallback =
  fb_provider :: Provider
  fb_model :: string
  fb_reason :: string

record LLMChoice =
  provider :: Provider
  model :: string
  reason :: string
  fallback :: "LLMFallback option"

definition pickLLMForJTBD :: "string \<Rightarrow> LLMChoice" where
  "pickLLMForJTBD jtbd =
     (let s = toLowerCase jtbd in
      if includes_str s ''ui'' \<or> includes_str s ''interface'' \<or> includes_str s ''dashboard'' then
        \<lparr>provider = googleai, model = ''gemini-2.0-pro-exp'',
         reason = ''front-end code generation'', fallback = None\<rparr>
      else if includes_str s ''copy'' \<or> includes_str s ''email'' \<or> includes_str s ''summary'' then
        \<lparr>provider = anthropic, model = ''claude-3.7-sonnet'', reason = ''long-form & nuance'',
         fallback = Some \<lparr>fb_provider = openai, fb_model = ''gpt-5-mini'',
                           fb_reason = ''budget alternative''\<rparr>\<rparr>
      else if includes_str s ''vision'' \<or> includes_str s ''image'' \<or> includes_str s ''audio''
              \<or> includes_str s ''transcribe'' then
        \<lparr>provider = google, model = ''gemini-2.5-pro'', reason = ''multimodal strength'',
         fallback = None\<rparr>
      else if includes_str s ''analysis'' \<or> includes_str s ''report'' \<or> includes_str s ''data'' then
        \<lparr>provider = openai, model = ''gpt-5'', reason = ''reasoning & structured outputs'',
         fallback = None\<rparr>
      else
        \<lparr>provider = anthropic, model = ''claude-3.7-sonnet'', reason = ''balanced generalist'',
         fallback = Some \<lparr>fb_provider = openai, fb_model = ''gpt-5-mini'',
                           fb_reason = ''budget alternative''\<rparr>\<rparr>)"

section \<open>Data of the orchestrator (\<^verbatim>\<open>src/core/code-generator.ts\<close>, \<^verbatim>\<open>src/services/build.ts\<close>)\<close>

record VisualStyle =
  theme :: string
  color :: string
  font :: string
  vibe :: string
  motion :: string
  favorite_app :: "string option"
  screenshots :: "string list option"

datatype Framework = react | vite

record CodeGenerationRequest =
  req_name :: string
  req_jtbds :: string
  req_input_sources :: "string list"
  req_outputs :: "string list"
  req_api_keys_required :: "string list"
  req_visual_style :: VisualStyle
  frontend_framework :: Framework
  req_llm_models :: "(string \<times> string) list option"

text \<open>
  The interface declares \<^verbatim>\<open>path\<close> and \<^verbatim>\<open>content\<close> as strings, but the parser copies
  whatever the parsed response holds in them, so the model keeps them as \<open>jsval\<close>.
\<close>

record GeneratedFile =
  path :: jsval
  content :: jsval
  phase :: string

record BuildAsset =
  asset_path :: string
  asset_content :: string
  asset_type :: string

record BuildResult =
  success :: bool
  buildId :: string
  assets :: "BuildAsset list option"
  errors :: "string list option"
  warnings :: "string list option"

record GenerationResult =
  files :: "GeneratedFile list"
  preview_url :: "string option"
  deployment_id :: "string option"
  build_result :: "BuildResult option"

text \<open>The JSON body of a request to \<^verbatim>\<open>https://do/progress\<close>.\<close>

record ProgressUpdate =
  pu_phase :: string
  progress :: rat
  status :: string
  result :: "GenerationResult option"

text \<open>
  A value inside a template literal is converted to a string. For an object this is
  \<^verbatim>\<open>ToPrimitive\<close> with hint string: \<^verbatim>\<open>toString\<close>, then \<^verbatim>\<open>valueOf\<close>. No property of a parsed
  object is callable, so an own \<^verbatim>\<open>toString\<close> hides the one of \<^verbatim>\<open>Object.prototype\<close>, and
  \<^verbatim>\<open>valueOf\<close> never yields a primitive: the conversion throws a \<^verbatim>\<open>TypeError\<close>. An array is
  joined, which converts its elements. Every other value converts.
\<close>

fun stringifiable :: "jsval \<Rightarrow> bool" where
  "stringifiable (JObj ps) = (map_of ps ''toString'' = None)"
| "stringifiable (JArr xs) = list_all stringifiable xs"
| "stringifiable v = True"

text \<open>
  What \<^verbatim>\<open>buildPhasePrompt\<close> renders into text: the request, the phase (which selects the
  instruction block) and, of each previous file, its path and phase. The text itself is not
  modelled; the LLM gateway receives this value in its place. The listing
  \<^verbatim>\<open>previousFiles.map(f => `- ${f.path} (${f.phase})`)\<close> converts every path to a string, and
  a path is whatever the parser copied from the response, so building the prompt can throw.
\<close>

record Prompt =
  prompt_request :: CodeGenerationRequest
  prompt_phase :: string
  prompt_previous :: "(jsval \<times> string) list"

definition buildPhasePrompt ::
  "CodeGenerationRequest \<Rightarrow> string \<Rightarrow> GeneratedFile list \<Rightarrow> error + Prompt" where
  "buildPhasePrompt request ph previousFiles =
     (if list_all (\<lambda>f. stringifiable (path f)) previousFiles
      then Inr \<lparr>prompt_request = request, prompt_phase = ph,
                prompt_previous = map (\<lambda>f. (path f, phase f)) previousFiles\<rparr>
      else Inl (TypeError ''Cannot convert object to primitive value''))"

section \<open>Data of the template registry and matcher\<close>

text \<open>
  The fields of \<^verbatim>\<open>TemplateDefinition\<close> that the matcher reads. \<^verbatim>\<open>capabilities\<close> is the
  object's property list, in key order; \<^verbatim>\<open>api_integrations\<close> and \<^verbatim>\<open>providers\<close> may be
  absent, which the code tests for.
\<close>

record ApiIntegration =
  api_type :: string
  providers :: "string list option"

record TemplateDefinition =
  name :: string
  description :: string
  category :: string
  framework :: string
  complexity :: string
  capabilities :: "(string \<times> bool) list"
  api_integrations :: "ApiIntegration list option"

record UserRequirements =
  ur_name :: string
  jtbds :: string
  input_sources :: "string list"
  outputs :: "string list"
  api_keys_required :: "string list"
  next_step :: string
  visual_style :: VisualStyle
  llm_models :: "(string \<times> string) list"

record TemplateMatch =
  templateName :: string
  confidence :: jsnum
  reasoning :: string
  match_capabilities :: "string list"

record TemplateSelectionResult =
  selectedTemplate :: "string option"
  fallbackGeneration :: "bool option"
  sel_reasoning :: string
  alternatives :: "TemplateMatch list option"

section \<open>The environment\<close>

text \<open>
  \<^item> \<open>AGENT_ASSETS\<close>: the optional R2 binding of \<^verbatim>\<open>EnvReq\<close>; \<open>None\<close> when the worker has
    none, otherwise the outcome of \<^verbatim>\<open>put(key, content, {httpMetadata: {contentType}})\<close>
    (\<open>Some e\<close>: rejected with \<open>e\<close>);
  \<^item> \<open>progress_fetch\<close>: the outcome of \<^verbatim>\<open>agentStub.fetch("https://do/progress", ...)\<close> for a
    given body;
  \<^item> \<open>callLLM\<close>, \<open>generateUIWithGoogle\<close>: the two entry points of the LLM gateway, returning
    the text, or the parsed UI result, or the error they throw;
  \<^item> \<open>JSON_parse\<close> (\<open>None\<close>: a \<^verbatim>\<open>SyntaxError\<close>) and \<open>JSON_stringify\<close> (with indent 2);
  \<^item> \<open>fresh_buildId\<close>: the build identifier drawn from the clock and the random source;
  \<^item> \<open>cwd\<close>, \<open>readdirSync\<close>, \<open>readFileSync\<close>, \<open>YAML_parse\<close>: the file system and the YAML
    reader, as the template registry sees them. A document that parses is taken at the type
    the code casts it to, \<^verbatim>\<open>TemplateDefinition\<close>.
\<close>

record Env =
  AGENT_ASSETS :: "(string \<Rightarrow> string \<Rightarrow> string \<Rightarrow> error option) option"
  progress_fetch :: "ProgressUpdate \<Rightarrow> error option"
  callLLM :: "Prompt \<Rightarrow> LLMChoice \<Rightarrow> error + string"
  generateUIWithGoogle :: "string \<Rightarrow> Prompt \<Rightarrow> error + jsval"
  JSON_parse :: "string \<Rightarrow> jsval option"
  JSON_stringify :: "jsval \<Rightarrow> string"
  fresh_buildId :: string
  cwd :: string
  readdirSync :: "string \<Rightarrow> error + string list"
  readFileSync :: "string \<Rightarrow> error + string"
  YAML_parse :: "string \<Rightarrow> error + TemplateDefinition"

section \<open>Response Parser\<close>

definition parsePlanningResponse :: "Env \<Rightarrow> string \<Rightarrow> string \<Rightarrow> GeneratedFile list" where
  "parsePlanningResponse env response ph =
     (case JSON_parse env response of
        Some data \<Rightarrow>
          [\<lparr>path = JStr ''project-structure.json'',
            content = JStr (JSON_stringify env data), phase = ph\<rparr>]
      | None \<Rightarrow>
          [\<lparr>path = JStr ''planning-notes.txt'', content = JStr response, phase = ph\<rparr>])"

text \<open>
  The callback of \<^verbatim>\<open>files.map\<close> in \<^verbatim>\<open>parseCodeResponse\<close>:
  \<^verbatim>\<open>f => ({ path: f.path || `phase-${phase}.txt`, content: f.content || f, phase })\<close>.
\<close>

definition entry_to_file :: "string \<Rightarrow> jsval \<Rightarrow> error + GeneratedFile" where
  "entry_to_file ph f =
     (case get_prop f ''path'' of
        Inl e \<Rightarrow> Inl e
      | Inr p \<Rightarrow>
          (case get_prop f ''content'' of
             Inl e \<Rightarrow> Inl e
           | Inr c \<Rightarrow>
               Inr \<lparr>path = (if truthy p then p else JStr (''phase-'' @ ph @ ''.txt'')),
                    content = (if truthy c then c else f),
                    phase = ph\<rparr>))"

definition fallback_file :: "string \<Rightarrow> string \<Rightarrow> GeneratedFile list" where
  "fallback_file response ph =
     [\<lparr>path = JStr (''phase-'' @ ph @ ''.tsx''), content = JStr response, phase = ph\<rparr>]"

text \<open>The \<^verbatim>\<open>try\<close> block covers the parse and the map; its \<^verbatim>\<open>catch {}\<close> falls through.\<close>

definition parseCodeResponse :: "Env \<Rightarrow> string \<Rightarrow> string \<Rightarrow> GeneratedFile list" where
  "parseCodeResponse env response ph =
     (case JSON_parse env response of
        Some (JArr entries) \<Rightarrow>
          (case map_throwing (entry_to_file ph) entries of
             Inr out \<Rightarrow> out
           | Inl e \<Rightarrow> fallback_file response ph)
      | _ \<Rightarrow> fallback_file response ph)"

section \<open>Phase Orchestrator\<close>

definition phases :: "(string \<times> string) list" where
  "phases =
     [(''planning'', ''Analyze requirements and create project structure''),
      (''foundation'', ''Generate package.json, config files, and basic setup''),
      (''core'', ''Create main components and business logic''),
      (''styling'', ''Add CSS, themes, and visual design''),
      (''integration'', ''Connect APIs and external services''),
      (''optimization'', ''Performance improvements and error handling'')]"

text \<open>\<^verbatim>\<open>uiResult.files.map(f => ({ ...f, phase }))\<close>: only an array has a \<^verbatim>\<open>map\<close> to call.\<close>

definition tag_ui_files :: "jsval \<Rightarrow> string \<Rightarrow> error + GeneratedFile list" where
  "tag_ui_files uiResult ph =
     (case get_prop uiResult ''files'' of
        Inl e \<Rightarrow> Inl e
      | Inr (JArr fs) \<Rightarrow>
          Inr (map (\<lambda>f. \<lparr>path = own_prop f ''path'', content = own_prop f ''content'',
                          phase = ph\<rparr>) fs)
      | Inr _ \<Rightarrow> Inl (TypeError ''uiResult.files.map is not a function''))"

text \<open>
  The effects of a run, in program order: a request to the progress store (sent, whether
  the store then accepts it or not), the LLM call of a phase, the \<^verbatim>\<open>console.error\<close> of a
  failed phase, a write to the object store.
\<close>

datatype event =
    Posted ProgressUpdate
  | LLMCalled string
  | ErrorLogged string
  | AssetPut string

text \<open>
  \<open>generatePhase\<close> returns its outcome and its effects: the LLM call, unless building the
  prompt threw before it.
\<close>

definition generatePhase ::
  "Env \<Rightarrow> CodeGenerationRequest \<Rightarrow> string \<Rightarrow> GeneratedFile list
     \<Rightarrow> (error + GeneratedFile list) \<times> event list" where
  "generatePhase env request ph previousFiles =
     (let llmChoice = pickLLMForJTBD (req_jtbds request)
      in case buildPhasePrompt request ph previousFiles of
           Inl e \<Rightarrow> (Inl e, [])
         | Inr prompt \<Rightarrow>
             (if ph = ''planning'' then
                (case callLLM env prompt llmChoice of
                   Inl e \<Rightarrow> Inl e
                 | Inr response \<Rightarrow> Inr (parsePlanningResponse env response ph))
              else if includes_str ph ''ui'' \<or> ph = ''styling'' then
                (case generateUIWithGoogle env ''gemini-2.0-pro-exp'' prompt of
                   Inl e \<Rightarrow> Inl e
                 | Inr uiResult \<Rightarrow> tag_ui_files uiResult ph)
              else
                (case callLLM env prompt llmChoice of
                   Inl e \<Rightarrow> Inl e
                 | Inr response \<Rightarrow> Inr (parseCodeResponse env response ph)),
              [LLMCalled ph]))"

text \<open>
  The \<^verbatim>\<open>for (const phase of phases)\<close> loop over the phases still to run, from the files
  accumulated so far and the counter \<^verbatim>\<open>currentPhase\<close>. It returns the final files, the
  final counter and the effects.
\<close>

fun runPhases ::
  "Env \<Rightarrow> CodeGenerationRequest \<Rightarrow> (string \<times> string) list \<Rightarrow> GeneratedFile list \<Rightarrow> nat
     \<Rightarrow> GeneratedFile list \<times> nat \<times> event list" where
  "runPhases env request [] allFiles currentPhase = (allFiles, currentPhase, [])"
| "runPhases env request (p # rest) allFiles currentPhase =
     (let upd = \<lparr>pu_phase = fst p,
                 progress = of_nat currentPhase / of_nat (length phases) * 100,
                 status = ''generating'', result = None\<rparr>
      in case progress_fetch env upd of
           Some e \<Rightarrow>
             (let (fs, n, tr) = runPhases env request rest allFiles currentPhase
              in (fs, n, Posted upd # ErrorLogged (fst p) # tr))
         | None \<Rightarrow>
             (case generatePhase env request (fst p) allFiles of
                (Inl e, evs) \<Rightarrow>
                  (let (fs, n, tr) = runPhases env request rest allFiles currentPhase
                   in (fs, n, Posted upd # evs @ ErrorLogged (fst p) # tr))
              | (Inr phaseFiles, evs) \<Rightarrow>
                  (let (fs, n, tr) =
                         runPhases env request rest (allFiles @ phaseFiles) (currentPhase + 1)
                   in (fs, n, Posted upd # evs @ tr))))"

text \<open>
  \<^verbatim>\<open>BuildService.executeBuild\<close> simulates a successful build whatever it is given, so
  nothing in the \<^verbatim>\<open>try\<close> block of \<^verbatim>\<open>buildApp\<close> throws; the package manifest and the build
  configuration that \<^verbatim>\<open>buildApp\<close> adds are only counted in a log line and are left out.
\<close>

definition executeBuild_assets :: "BuildAsset list" where
  "executeBuild_assets =
     [\<lparr>asset_path = ''index.html'',
       asset_content = ''<!DOCTYPE html><html><body><h1>Built App</h1></body></html>'',
       asset_type = ''html''\<rparr>,
      \<lparr>asset_path = ''assets/index.js'', asset_content = ''console.log(\"Built JavaScript\");'',
       asset_type = ''js''\<rparr>,
      \<lparr>asset_path = ''assets/index.css'', asset_content = ''body { font-family: Arial; }'',
       asset_type = ''css''\<rparr>]"

definition buildGeneratedApp ::
  "Env \<Rightarrow> GeneratedFile list \<Rightarrow> CodeGenerationRequest \<Rightarrow> string \<Rightarrow> BuildResult" where
  "buildGeneratedApp env fs request agentId =
     \<lparr>success = True, buildId = fresh_buildId env, assets = Some executeBuild_assets,
      errors = None, warnings = Some [''Some warnings about unused imports'']\<rparr>"

definition contentType :: "string \<Rightarrow> string" where
  "contentType ty =
     (if ty = ''html'' then ''text/html''
      else if ty = ''js'' then ''application/javascript''
      else if ty = ''css'' then ''text/css''
      else ''text/plain'')"

text \<open>
  The loop \<^verbatim>\<open>for (const asset of buildResult.assets) await this.env.AGENT_ASSETS.put(...)\<close>:
  reading \<^verbatim>\<open>put\<close> off a missing binding throws, and so does a rejected write.
\<close>

fun put_assets ::
  "(string \<Rightarrow> string \<Rightarrow> string \<Rightarrow> error option) option \<Rightarrow> string \<Rightarrow> BuildAsset list
     \<Rightarrow> error option \<times> event list" where
  "put_assets store agentId [] = (None, [])"
| "put_assets store agentId (a # rest) =
     (case store of
        None \<Rightarrow> (Some (TypeError ''Cannot read properties of undefined (reading put)''), [])
      | Some put \<Rightarrow>
          (let key = ''apps/'' @ agentId @ ''/'' @ asset_path a
           in case put key (asset_content a) (contentType (asset_type a)) of
                Some e \<Rightarrow> (Some e, [AssetPut key])
              | None \<Rightarrow>
                  (let (r, tr) = put_assets store agentId rest in (r, AssetPut key # tr))))"

definition createPreviewAndDeploy ::
  "Env \<Rightarrow> GeneratedFile list \<Rightarrow> BuildResult \<Rightarrow> CodeGenerationRequest \<Rightarrow> string
     \<Rightarrow> (error + GenerationResult) \<times> event list" where
  "createPreviewAndDeploy env fs buildResult request agentId =
     (let (failure, tr) =
            (case (success buildResult, assets buildResult) of
               (True, Some as) \<Rightarrow> put_assets (AGENT_ASSETS env) agentId as
             | _ \<Rightarrow> (None, []))
      in case failure of
           Some e \<Rightarrow> (Inl e, tr)
         | None \<Rightarrow>
             (Inr \<lparr>files = fs,
                   preview_url = Some (''https://'' @ agentId @ ''.yourdomain.com''),
                   deployment_id = Some agentId,
                   build_result = Some buildResult\<rparr>, tr))"

definition generateApp ::
  "Env \<Rightarrow> CodeGenerationRequest \<Rightarrow> string \<Rightarrow> (error + GenerationResult) \<times> event list" where
  "generateApp env request agentId =
     (let (allFiles, currentPhase, tr1) = runPhases env request phases [] 0;
          buildResult = buildGeneratedApp env allFiles request agentId
      in case createPreviewAndDeploy env allFiles buildResult request agentId of
           (Inl e, tr2) \<Rightarrow> (Inl e, tr1 @ tr2)
         | (Inr res, tr2) \<Rightarrow>
             (let upd = \<lparr>pu_phase = ''complete'', progress = 100, status = ''completed'',
                         result = Some res\<rparr>
              in case progress_fetch env upd of
                   Some e \<Rightarrow> (Inl e, tr1 @ tr2 @ [Posted upd])
                 | None \<Rightarrow> (Inr res, tr1 @ tr2 @ [Posted upd])))"

section \<open>Template Registry and Template Customizer entry\<close>

text \<open>\<^verbatim>\<open>path.join\<close> of already clean segments (no normalisation of dots and slashes).\<close>

definition path_join :: "string list \<Rightarrow> string" where
  "path_join segments = join_str ''/'' segments"

definition loadTemplateDefinition :: "Env \<Rightarrow> string \<Rightarrow> error + TemplateDefinition" where
  "loadTemplateDefinition env tplName =
     (let yamlPath = path_join [cwd env, ''templates'', ''definitions'', tplName @ ''.yaml'']
      in case (case readFileSync env yamlPath of
                 Inl e \<Rightarrow> Inl e
               | Inr yamlContent \<Rightarrow> YAML_parse env yamlContent) of
           Inl e \<Rightarrow>
             Inl (Error (''Failed to load template definition for '' @ tplName @ '': ''
                          @ error_text e))
         | Inr templateDef \<Rightarrow> Inr templateDef)"

text \<open>
  \<^verbatim>\<open>customizeTemplate\<close> loads the definition in its first statement, outside any \<^verbatim>\<open>try\<close>.
  The parameter \<open>body\<close> is the remainder of the function (the two progress posts, the
  substitutions, the two LLM calls and the assembly of the app): it is entered with the
  loaded definition, and the theorems about the load hold for every such remainder.
\<close>

definition customizeTemplate ::
  "Env \<Rightarrow> (TemplateDefinition \<Rightarrow> UserRequirements \<Rightarrow> string \<Rightarrow> (error + 'app) \<times> event list)
     \<Rightarrow> string \<Rightarrow> UserRequirements \<Rightarrow> string \<Rightarrow> (error + 'app) \<times> event list" where
  "customizeTemplate env body tplName userRequirements agentId =
     (case loadTemplateDefinition env tplName of
        Inl e \<Rightarrow> (Inl e, [])
      | Inr templateDef \<Rightarrow> body templateDef userRequirements agentId)"

text \<open>\<^verbatim>\<open>TemplateSelector.generateFallbackApp\<close> returns the customizer's promise as it is.\<close>

definition generateFallbackApp ::
  "Env \<Rightarrow> (TemplateDefinition \<Rightarrow> UserRequirements \<Rightarrow> string \<Rightarrow> (error + 'app) \<times> event list)
     \<Rightarrow> UserRequirements \<Rightarrow> (error + 'app) \<times> event list" where
  "generateFallbackApp env body userRequirements =
     customizeTemplate env body ''journal-app'' userRequirements ''fallback-agent''"

text \<open>One \<^verbatim>\<open>try\<close> around the directory listing and every read and parse: any failure gives \<open>[]\<close>.\<close>

definition getAvailableTemplates :: "Env \<Rightarrow> TemplateDefinition list" where
  "getAvailableTemplates env =
     (let definitionsDir = path_join [cwd env, ''templates'', ''definitions'']
      in case readdirSync env definitionsDir of
           Inl e \<Rightarrow> []
         | Inr entries \<Rightarrow>
             (case map_throwing
                     (\<lambda>file. case readFileSync env (path_join [definitionsDir, file]) of
                                Inl e \<Rightarrow> Inl e
                              | Inr yamlText \<Rightarrow> YAML_parse env yamlText)
                     (filter (suffix ''.yaml'') entries) of
                Inl e \<Rightarrow> []
              | Inr templates \<Rightarrow> templates))"

section \<open>Template Matcher (\<^verbatim>\<open>src/core/template-selector.ts\<close>)\<close>

text \<open>\<^verbatim>\<open>template.capabilities[cap]\<close> as a condition.\<close>

definition has_capability :: "TemplateDefinition \<Rightarrow> string \<Rightarrow> bool" where
  "has_capability template cap = (map_of (capabilities template) cap = Some True)"

definition inputMap :: "(string \<times> string list) list" where
  "inputMap =
     [(''gdrive'', [''file_upload'']), (''dropbox'', [''file_upload'']),
      (''notion'', [''api_import'']), (''web'', [''url_import'']),
      (''upload'', [''file_upload'']), (''email'', [''api_import'']),
      (''other'', [''api_import''])]"

definition outputMap :: "(string \<times> string list) list" where
  "outputMap =
     [(''summary'', [''data_storage'', ''reporting'']), (''doc'', [''export'']),
      (''json'', [''export'']), (''post'', [''api_import'']), (''slides'', [''export'']),
      (''audio'', [''export'']), (''video'', [''export'']), (''image'', [''export'']),
      (''trigger'', [''webhook''])]"

text \<open>
  The tables are object literals, so \<^verbatim>\<open>table[key]\<close> also finds what the literal inherits
  from \<^verbatim>\<open>Object.prototype\<close>. The keys are lower-cased tags: an own key gives its array; an
  inherited name gives a function (or, for \<^verbatim>\<open>__proto__\<close>, the prototype object), a truthy
  value that \<^verbatim>\<open>|| []\<close> keeps and that has no \<^verbatim>\<open>some\<close> to call, so the call throws; any
  other key gives \<^verbatim>\<open>undefined\<close>, replaced by \<^verbatim>\<open>[]\<close>.
\<close>

definition object_prototype_keys :: "string list" where
  "object_prototype_keys =
     [''constructor'', ''__defineGetter__'', ''__defineSetter__'', ''hasOwnProperty'',
      ''__lookupGetter__'', ''__lookupSetter__'', ''isPrototypeOf'', ''propertyIsEnumerable'',
      ''toString'', ''valueOf'', ''__proto__'', ''toLocaleString'']"

definition required_capabilities ::
  "(string \<times> string list) list \<Rightarrow> string \<Rightarrow> error + string list" where
  "required_capabilities table key =
     (case map_of table key of
        Some caps \<Rightarrow> Inr caps
      | None \<Rightarrow>
          if key \<in> set object_prototype_keys
          then Inl (TypeError ''requiredCapabilities.some is not a function'')
          else Inr [])"

definition templateSupportsInput :: "TemplateDefinition \<Rightarrow> string \<Rightarrow> error + bool" where
  "templateSupportsInput template inp =
     (case required_capabilities inputMap (toLowerCase inp) of
        Inl e \<Rightarrow> Inl e
      | Inr requiredCapabilities \<Rightarrow> Inr (list_ex (has_capability template) requiredCapabilities))"

definition templateSupportsOutput :: "TemplateDefinition \<Rightarrow> string \<Rightarrow> error + bool" where
  "templateSupportsOutput template out =
     (case required_capabilities outputMap (toLowerCase out) of
        Inl e \<Rightarrow> Inl e
      | Inr requiredCapabilities \<Rightarrow> Inr (list_ex (has_capability template) requiredCapabilities))"

text \<open>\<^verbatim>\<open>xs.filter(p)\<close> with a predicate that may throw: the first throw ends the filter.\<close>

fun filter_throwing :: "('a \<Rightarrow> error + bool) \<Rightarrow> 'a list \<Rightarrow> error + 'a list" where
  "filter_throwing p [] = Inr []"
| "filter_throwing p (x # xs) =
     (case p x of
        Inl e \<Rightarrow> Inl e
      | Inr b \<Rightarrow>
          (case filter_throwing p xs of
             Inl e \<Rightarrow> Inl e
           | Inr ys \<Rightarrow> Inr (if b then x # ys else ys)))"

definition templateSupportsAPI :: "TemplateDefinition \<Rightarrow> string \<Rightarrow> bool" where
  "templateSupportsAPI template api =
     (case api_integrations template of
        None \<Rightarrow> False
      | Some integrations \<Rightarrow>
          list_ex (\<lambda>integration.
                     case providers integration of
                       Some ps \<Rightarrow> toLowerCase api \<in> set ps
                     | None \<Rightarrow> False) integrations)"

definition assessJTBDComplexity :: "UserRequirements \<Rightarrow> string" where
  "assessJTBDComplexity requirements =
     (let factors =
            [length (input_sources requirements) > 2,
             length (outputs requirements) > 2,
             length (api_keys_required requirements) > 1,
             length (jtbds requirements) > 100];
          complexityScore = length (filter (\<lambda>b. b) factors)
      in if complexityScore \<le> 1 then ''simple''
         else if complexityScore \<le> 3 then ''medium''
         else ''complex'')"

definition maxScore :: rat where
  "maxScore = 30 + 20 + 20 + 15 + 10 + 5"

text \<open>The first rule of the keyword chain that applies, \<open>0\<close> if none does.\<close>

definition keywordScore :: "TemplateDefinition \<Rightarrow> string \<Rightarrow> rat" where
  "keywordScore template jtbd =
     (if includes_str jtbd ''journal'' \<and> includes_str (name template) ''journal'' then 30
      else if includes_str jtbd ''idea'' \<and> includes_str (name template) ''idea'' then 30
      else if includes_str jtbd ''dashboard'' \<and> includes_str (name template) ''dashboard'' then 30
      else if includes_str jtbd ''track'' \<and> has_capability template ''workflow_management'' then 20
      else if includes_str jtbd ''manage'' \<and> has_capability template ''workflow_management'' then 20
      else 0)"

text \<open>The favorite-app heuristic, skipped when the field is absent or empty.\<close>

definition favoriteScore :: "TemplateDefinition \<Rightarrow> string option \<Rightarrow> rat" where
  "favoriteScore template fav =
     (case fav of
        None \<Rightarrow> 0
      | Some app \<Rightarrow>
          if app = [] then 0
          else (let favorite = toLowerCase app
                in if includes_str favorite ''notion'' \<and> framework template = ''react'' then 10
                   else if includes_str favorite ''figma''
                           \<and> has_capability template ''data_visualization'' then 10
                   else 0))"

text \<open>
  The input tags are filtered, then the output tags; a throw of \<open>templateSupportsInput\<close> or
  \<open>templateSupportsOutput\<close> leaves the function.
\<close>

definition calculateTemplateMatch :: "TemplateDefinition \<Rightarrow> UserRequirements \<Rightarrow> error + jsnum" where
  "calculateTemplateMatch template requirements =
     (let jtbd = toLowerCase (jtbds requirements);
          score1 = js_add (Num 0) (Num (keywordScore template jtbd))
      in case filter_throwing (templateSupportsInput template) (input_sources requirements) of
           Inl e \<Rightarrow> Inl e
         | Inr inputMatches \<Rightarrow>
             (let score2 = js_add score1
                    (js_mul (js_ratio (length inputMatches)
                                      (length (input_sources requirements))) (Num 20))
              in case filter_throwing (templateSupportsOutput template) (outputs requirements) of
                   Inl e \<Rightarrow> Inl e
                 | Inr outputMatches \<Rightarrow>
                     (let score3 = js_add score2
                            (js_mul (js_ratio (length outputMatches)
                                              (length (outputs requirements))) (Num 20));
                          apiMatches =
                            length (filter (templateSupportsAPI template)
                                           (api_keys_required requirements));
                          score4 = js_add score3
                            (js_mul (js_ratio apiMatches
                                              (length (api_keys_required requirements)))
                                    (Num 15));
                          score5 = js_add score4
                            (Num (favoriteScore template
                                    (favorite_app (visual_style requirements))));
                          score6 = js_add score5
                            (Num (if assessJTBDComplexity requirements = complexity template
                                  then 5 else 0))
                      in Inr (js_min (js_div_const score6 maxScore) (Num 1)))))"

definition generateMatchReasoning :: "TemplateDefinition \<Rightarrow> UserRequirements \<Rightarrow> error + string" where
  "generateMatchReasoning template requirements =
     (let stem = takeWhile (\<lambda>c. c \<noteq> CHR ''-'') (name template);
          reasons1 =
            (if includes_str (toLowerCase (jtbds requirements)) stem
             then [''JTBD mentions \"'' @ stem @ ''\" functionality''] else [])
      in case filter_throwing (templateSupportsInput template) (input_sources requirements) of
           Inl e \<Rightarrow> Inl e
         | Inr inputMatches \<Rightarrow>
             (let reasons2 = reasons1
                    @ (if length inputMatches > 0
                       then [''Supports '' @ show_nat (length inputMatches)
                               @ '' of your input sources'']
                       else [])
              in case filter_throwing (templateSupportsOutput template) (outputs requirements) of
                   Inl e \<Rightarrow> Inl e
                 | Inr outputMatches \<Rightarrow>
                     (let reasons = reasons2
                            @ (if length outputMatches > 0
                               then [''Supports '' @ show_nat (length outputMatches)
                                       @ '' of your output types'']
                               else [])
                      in Inr (if length reasons > 0 then join_str '', '' reasons
                              else ''General purpose template''))))"

text \<open>
  \<^verbatim>\<open>matches.sort((a, b) => b.confidence - a.confidence)\<close>. \<^verbatim>\<open>Array.prototype.sort\<close> is
  stable and reads a \<open>NaN\<close> from the comparator as \<open>0\<close>; an element moves behind another
  only when the comparator is positive. Inserting from the right into the sorted rest is
  that stable ordering. (The confidences of one request are all finite or all \<open>NaN\<close>, see
  \<open>calculateTemplateMatch_NaN_iff\<close>, so the comparator is consistent.)
\<close>

definition compare_matches :: "TemplateMatch \<Rightarrow> TemplateMatch \<Rightarrow> jsnum" where
  "compare_matches a b = js_sub (confidence b) (confidence a)"

fun insert_by :: "('a \<Rightarrow> 'a \<Rightarrow> jsnum) \<Rightarrow> 'a \<Rightarrow> 'a list \<Rightarrow> 'a list" where
  "insert_by cmp x [] = [x]"
| "insert_by cmp x (y # ys) =
     (if js_gt (cmp x y) (Num 0) then y # insert_by cmp x ys else x # y # ys)"

definition js_sort :: "('a \<Rightarrow> 'a \<Rightarrow> jsnum) \<Rightarrow> 'a list \<Rightarrow> 'a list" where
  "js_sort cmp xs = foldr (insert_by cmp) xs []"

text \<open>\<^verbatim>\<open>xs.slice(a, b)\<close> for \<open>0 \<le> a \<le> b\<close>.\<close>

definition slice :: "nat \<Rightarrow> nat \<Rightarrow> 'a list \<Rightarrow> 'a list" where
  "slice a b xs = take (b - a) (drop a xs)"

text \<open>The callback of \<^verbatim>\<open>availableTemplates.map\<close>: the confidence first, then the reasoning.\<close>

definition score_template :: "UserRequirements \<Rightarrow> TemplateDefinition \<Rightarrow> error + TemplateMatch" where
  "score_template userRequirements template =
     (case calculateTemplateMatch template userRequirements of
        Inl e \<Rightarrow> Inl e
      | Inr c \<Rightarrow>
          (case generateMatchReasoning template userRequirements of
             Inl e \<Rightarrow> Inl e
           | Inr why \<Rightarrow>
               Inr \<lparr>templateName = name template,
                    confidence = c,
                    reasoning = why,
                    match_capabilities =
                      filter (has_capability template) (map fst (capabilities template))\<rparr>))"

text \<open>The matches after the in-place sort, unless scoring a template threw.\<close>

definition ranked_matches :: "Env \<Rightarrow> UserRequirements \<Rightarrow> error + TemplateMatch list" where
  "ranked_matches env userRequirements =
     (case map_throwing (score_template userRequirements) (getAvailableTemplates env) of
        Inl e \<Rightarrow> Inl e
      | Inr matches \<Rightarrow> Inr (js_sort compare_matches matches))"

text \<open>
  Nothing in \<open>selectTemplateForJTBD\<close> catches a throw of the scoring. Reading
  \<^verbatim>\<open>bestMatch.confidence\<close> throws when \<^verbatim>\<open>matches[0]\<close> is \<^verbatim>\<open>undefined\<close>.
\<close>

definition selectTemplateForJTBD :: "Env \<Rightarrow> UserRequirements \<Rightarrow> error + TemplateSelectionResult" where
  "selectTemplateForJTBD env userRequirements =
     (case ranked_matches env userRequirements of
        Inl e \<Rightarrow> Inl e
      | Inr matches \<Rightarrow>
          (case matches of
             [] \<Rightarrow> Inl (TypeError ''Cannot read properties of undefined (reading confidence)'')
           | bestMatch # others \<Rightarrow>
               if js_ge (confidence bestMatch) (Num (7 / 10)) then
                 Inr \<lparr>selectedTemplate = Some (templateName bestMatch),
                      fallbackGeneration = None,
                      sel_reasoning = reasoning bestMatch,
                      alternatives = Some (slice 1 4 matches)\<rparr>
               else
                 Inr \<lparr>selectedTemplate = None,
                      fallbackGeneration = Some True,
                      sel_reasoning =
                        ''No template matches well enough (best confidence: ''
                        @ toFixed1 (js_mul (confidence bestMatch) (Num 100))
                        @ ''%). Will generate custom app using AI.'',
                      alternatives = Some (slice 0 3 matches)\<rparr>))"

section \<open>Reading the effects of a run\<close>

text \<open>The progress updates sent, and the phases whose failure was logged, in order.\<close>

fun posted :: "event list \<Rightarrow> ProgressUpdate list" where
  "posted [] = []"
| "posted (Posted u # es) = u # posted es"
| "posted (e # es) = posted es"

fun failures :: "event list \<Rightarrow> string list" where
  "failures [] = []"
| "failures (ErrorLogged p # es) = p # failures es"
| "failures (e # es) = failures es"

text \<open>The update the loop sends before the phase \<open>p\<close> when the counter is \<open>currentPhase\<close>.\<close>

abbreviation phase_update :: "string \<times> string \<Rightarrow> nat \<Rightarrow> ProgressUpdate" where
  "phase_update p currentPhase \<equiv>
     \<lparr>pu_phase = fst p,
      progress = of_nat currentPhase / of_nat (length phases) * 100,
      status = ''generating'', result = None\<rparr>"

section \<open>Fixtures of the worked examples\<close>

text \<open>
  What \<^verbatim>\<open>JSON.parse\<close> and \<^verbatim>\<open>JSON.stringify(_, null, 2)\<close> answer on the literals of the
  worked examples. The examples consult them on these literals and on text that is not JSON.
\<close>

definition example_parse :: "string \<Rightarrow> jsval option" where
  "example_parse s =
     (if s = ''[{\"path\":\"src/App.tsx\",\"content\":\"export default App\"}]'' then
        Some (JArr [JObj [(''path'', JStr ''src/App.tsx''),
                          (''content'', JStr ''export default App'')]])
      else if s = ''[{\"path\":\"\",\"content\":\"x\"},{\"path\":\"src/.gitkeep\",\"content\":\"\"}]'' then
        Some (JArr [JObj [(''path'', JStr []), (''content'', JStr ''x'')],
                    JObj [(''path'', JStr ''src/.gitkeep''), (''content'', JStr [])]])
      else if s = ''{\"files\":[]}'' then Some (JObj [(''files'', JArr [])])
      else if s = ''[{\"path\":{\"toString\":0},\"content\":\"x\"}]'' then
        Some (JArr [JObj [(''path'', JObj [(''toString'', JNum 0)]), (''content'', JStr ''x'')]])
      else None)"

definition example_stringify :: "jsval \<Rightarrow> string" where
  "example_stringify v =
     (if v = JObj [(''files'', JArr [])]
      then ''{'' @ [CHR 0x0A] @ ''  \"files\": []'' @ [CHR 0x0A] @ ''}''
      else [])"

definition journal_template :: TemplateDefinition where
  "journal_template =
     \<lparr>name = ''journal-app'', description = ''Personal journal'', category = ''productivity'',
      framework = ''react'', complexity = ''simple'',
      capabilities = [(''file_upload'', True), (''data_storage'', True), (''export'', True),
                      (''workflow_management'', False)],
      api_integrations = Some [\<lparr>api_type = ''llm'', providers = Some [''openai'', ''anthropic'']\<rparr>]\<rparr>"

definition dashboard_template :: TemplateDefinition where
  "dashboard_template =
     \<lparr>name = ''dashboard-app'', description = ''KPI dashboard'', category = ''analytics'',
      framework = ''react'', complexity = ''medium'',
      capabilities = [(''data_visualization'', True), (''reporting'', True)],
      api_integrations = None\<rparr>"

text \<open>
  An environment in which the LLM gateway fails the core phase (a remote failure) and the
  styling phase (no Google AI Studio key), answers the planning phase with a JSON object and
  the other phases with a JSON file list, and in which every store accepts every write. The
  registry directory holds two definitions and a file that is not one.
\<close>

definition example_env :: Env where
  "example_env =
     \<lparr>AGENT_ASSETS = Some (\<lambda>key body ty. None),
      progress_fetch = (\<lambda>u. None),
      callLLM = (\<lambda>p choice.
        if prompt_phase p = ''core'' then Inl (Error ''LLM call failed: 500 upstream'')
        else if prompt_phase p = ''planning'' then Inr ''{\"files\":[]}''
        else Inr ''[{\"path\":\"src/App.tsx\",\"content\":\"export default App\"}]''),
      generateUIWithGoogle = (\<lambda>m p. Inl (Error ''Missing GOOGLE_AI_STUDIO_API_KEY'')),
      JSON_parse = example_parse,
      JSON_stringify = example_stringify,
      fresh_buildId = ''build_1730000000000_k3x9q2m1z'',
      cwd = ''/srv'',
      readdirSync = (\<lambda>d.
        if d = ''/srv/templates/definitions''
        then Inr [''journal-app.yaml'', ''README.md'', ''dashboard-app.yaml'']
        else Inl (Error ''ENOENT: no such file or directory, scandir'')),
      readFileSync = (\<lambda>f.
        if f = ''/srv/templates/definitions/journal-app.yaml'' then Inr ''name: journal-app''
        else if f = ''/srv/templates/definitions/dashboard-app.yaml'' then Inr ''name: dashboard-app''
        else Inl (Error ''ENOENT: no such file or directory, open'')),
      YAML_parse = (\<lambda>t.
        if t = ''name: journal-app'' then Inr journal_template
        else if t = ''name: dashboard-app'' then Inr dashboard_template
        else Inl (Error ''YAMLParseError''))\<rparr>"

text \<open>
  The environment the router worker builds for \<^verbatim>\<open>createCodeGenerator\<close>: \<^verbatim>\<open>AI_GATEWAY\<close>,
  \<^verbatim>\<open>GOOGLE_AI_STUDIO_API_KEY\<close> and \<^verbatim>\<open>AGENT_STATE\<close>, and no \<^verbatim>\<open>AGENT_ASSETS\<close>.
\<close>

definition router_env :: Env where
  "router_env = example_env\<lparr>AGENT_ASSETS := None\<rparr>"

text \<open>A worker whose bundle has no \<^verbatim>\<open>templates/definitions\<close> directory.\<close>

definition bare_env :: Env where
  "bare_env =
     example_env\<lparr>readdirSync := (\<lambda>d. Inl (Error ''ENOENT: no such file or directory, scandir'')),
                 readFileSync := (\<lambda>f. Inl (Error ''ENOENT: no such file or directory, open''))\<rparr>"

definition example_style :: VisualStyle where
  "example_style =
     \<lparr>theme = ''light'', color = ''blue'', font = ''sans'', vibe = ''clean'', motion = ''subtle'',
      favorite_app = None, screenshots = None\<rparr>"

definition example_request :: CodeGenerationRequest where
  "example_request =
     \<lparr>req_name = ''Reading log'', req_jtbds = ''track the books I read'',
      req_input_sources = [], req_outputs = [], req_api_keys_required = [],
      req_visual_style = example_style, frontend_framework = react, req_llm_models = None\<rparr>"

text \<open>The requirements the home page of the web UI submits: the three tag lists are empty.\<close>

definition home_page_requirements :: UserRequirements where
  "home_page_requirements =
     \<lparr>ur_name = ''Reading log'', jtbds = ''track the books I read'',
      input_sources = [], outputs = [], api_keys_required = [], next_step = [],
      visual_style = example_style, llm_models = []\<rparr>"

definition journal_requirements :: UserRequirements where
  "journal_requirements =
     \<lparr>ur_name = ''Journal'', jtbds = ''Track my journal entries'',
      input_sources = [''upload''], outputs = [''doc''], api_keys_required = [''OpenAI''],
      next_step = [], visual_style = example_style, llm_models = []\<rparr>"

text \<open>Requirements that rank the second template of the registry first, below the threshold.\<close>

definition dashboard_requirements :: UserRequirements where
  "dashboard_requirements =
     \<lparr>ur_name = ''KPIs'', jtbds = ''Build a KPI dashboard'',
      input_sources = [''web''], outputs = [''summary''], api_keys_required = [''OpenAI''],
      next_step = [], visual_style = example_style, llm_models = []\<rparr>"

text \<open>Requirements whose one input tag names a member of \<^verbatim>\<open>Object.prototype\<close>.\<close>

definition constructor_requirements :: UserRequirements where
  "constructor_requirements =
     \<lparr>ur_name = ''Journal'', jtbds = ''Track my journal entries'',
      input_sources = [''constructor''], outputs = [''doc''], api_keys_required = [''OpenAI''],
      next_step = [], visual_style = example_style, llm_models = []\<rparr>"

text \<open>
  An environment whose LLM gateway answers the foundation phase with a file whose path is
  the object \<^verbatim>\<open>{"toString": 0}\<close>, and every other phase with plain text.
\<close>

definition object_path_env :: Env where
  "object_path_env =
     example_env\<lparr>callLLM := (\<lambda>p choice.
        if prompt_phase p = ''foundation''
        then Inr ''[{\"path\":{\"toString\":0},\"content\":\"x\"}]''
        else Inr ''Plan: start with the layout.''),
      generateUIWithGoogle := (\<lambda>m p. Inr (JObj [(''files'', JArr [])]))\<rparr>"

chapter \<open>Properties\<close>

section \<open>Strings\<close>

lemma includes_str_iff: "includes_str s sub \<longleftrightarrow> (\<exists>ps ss. s = ps @ sub @ ss)"
proof (induction s)
  case Nil
  show ?case by auto
next
  case (Cons c cs)
  show ?case
  proof
    assume "includes_str (c # cs) sub"
    then consider "prefix sub (c # cs)" | "includes_str cs sub" by auto
    then show "\<exists>ps ss. c # cs = ps @ sub @ ss"
    proof cases
      case 1
      then obtain ss where "c # cs = sub @ ss" by (auto simp: prefix_def)
      then have "c # cs = [] @ sub @ ss" by simp
      then show ?thesis by blast
    next
      case 2
      then obtain ps ss where "cs = ps @ sub @ ss" using Cons.IH by blast
      then have "c # cs = (c # ps) @ sub @ ss" by simp
      then show ?thesis by blast
    qed
  next
    assume "\<exists>ps ss. c # cs = ps @ sub @ ss"
    then obtain ps ss where e: "c # cs = ps @ sub @ ss" by blast
    show "includes_str (c # cs) sub"
    proof (cases ps)
      case Nil
      with e have "prefix sub (c # cs)" by (simp add: prefix_def)
      then show ?thesis by simp
    next
      case (Cons p ps')
      with e have "cs = ps' @ sub @ ss" by simp
      then have "includes_str cs sub" using Cons.IH by blast
      then show ?thesis by simp
    qed
  qed
qed

lemma includes_str_toLowerCase:
  assumes "includes_str s sub" and "toLowerCase sub = sub"
  shows "includes_str (toLowerCase s) sub"
proof -
  from assms(1) obtain ps ss where "s = ps @ sub @ ss"
    unfolding includes_str_iff by blast
  then have "toLowerCase s = toLowerCase ps @ sub @ toLowerCase ss"
    using assms(2) by (simp add: toLowerCase_def)
  then show ?thesis unfolding includes_str_iff by blast
qed

section \<open>Model Selection Policy\<close>

lemma toLowerCase_ui: "toLowerCase ''ui'' = ''ui''"
  by (simp add: toLowerCase_def lower_char_def)

text \<open>
  Claim C5. \<open>pickLLMForJTBD\<close> is a function of the description alone (a HOL function has
  no other input), and its keyword groups are tried in the order UI, copy, vision,
  analysis, default, the first hit deciding: each rule's choice is returned exactly when its
  group occurs in the lower-cased description and no earlier group does. In particular a
  description that contains both "ui" and "report" gets the UI rule's choice (provider
  \<open>googleai\<close>, no fallback), not the analysis rule's.
\<close>

theorem pickLLMForJTBD_precedence:
  fixes d :: string
  defines "s \<equiv> toLowerCase d"
  shows "((includes_str s ''ui'' \<or> includes_str s ''interface'' \<or> includes_str s ''dashboard'')
            \<longrightarrow> pickLLMForJTBD d =
                  \<lparr>provider = googleai, model = ''gemini-2.0-pro-exp'',
                   reason = ''front-end code generation'', fallback = None\<rparr>)
       \<and> (\<not> (includes_str s ''ui'' \<or> includes_str s ''interface'' \<or> includes_str s ''dashboard'')
            \<and> (includes_str s ''copy'' \<or> includes_str s ''email'' \<or> includes_str s ''summary'')
            \<longrightarrow> pickLLMForJTBD d =
                  \<lparr>provider = anthropic, model = ''claude-3.7-sonnet'',
                   reason = ''long-form & nuance'',
                   fallback = Some \<lparr>fb_provider = openai, fb_model = ''gpt-5-mini'',
                                     fb_reason = ''budget alternative''\<rparr>\<rparr>)
       \<and> (\<not> (includes_str s ''ui'' \<or> includes_str s ''interface'' \<or> includes_str s ''dashboard'')
            \<and> \<not> (includes_str s ''copy'' \<or> includes_str s ''email'' \<or> includes_str s ''summary'')
            \<and> (includes_str s ''vision'' \<or> includes_str s ''image'' \<or> includes_str s ''audio''
                \<or> includes_str s ''transcribe'')
            \<longrightarrow> pickLLMForJTBD d =
                  \<lparr>provider = google, model = ''gemini-2.5-pro'',
                   reason = ''multimodal strength'', fallback = None\<rparr>)
       \<and> (\<not> (includes_str s ''ui'' \<or> includes_str s ''interface'' \<or> includes_str s ''dashboard'')
            \<and> \<not> (includes_str s ''copy'' \<or> includes_str s ''email'' \<or> includes_str s ''summary'')
            \<and> \<not> (includes_str s ''vision'' \<or> includes_str s ''image'' \<or> includes_str s ''audio''
                   \<or> includes_str s ''transcribe'')
            \<and> (includes_str s ''analysis'' \<or> includes_str s ''report'' \<or> includes_str s ''data'')
            \<longrightarrow> pickLLMForJTBD d =
                  \<lparr>provider = openai, model = ''gpt-5'',
                   reason = ''reasoning & structured outputs'', fallback = None\<rparr>)
       \<and> (\<not> (includes_str s ''ui'' \<or> includes_str s ''interface'' \<or> includes_str s ''dashboard'')
            \<and> \<not> (includes_str s ''copy'' \<or> includes_str s ''email'' \<or> includes_str s ''summary'')
            \<and> \<not> (includes_str s ''vision'' \<or> includes_str s ''image'' \<or> includes_str s ''audio''
                   \<or> includes_str s ''transcribe'')
            \<and> \<not> (includes_str s ''analysis'' \<or> includes_str s ''report'' \<or> includes_str s ''data'')
            \<longrightarrow> pickLLMForJTBD d =
                  \<lparr>provider = anthropic, model = ''claude-3.7-sonnet'',
                   reason = ''balanced generalist'',
                   fallback = Some \<lparr>fb_provider = openai, fb_model = ''gpt-5-mini'',
                                     fb_reason = ''budget alternative''\<rparr>\<rparr>)
       \<and> (includes_str d ''ui'' \<and> includes_str d ''report''
            \<longrightarrow> pickLLMForJTBD d =
                  \<lparr>provider = googleai, model = ''gemini-2.0-pro-exp'',
                   reason = ''front-end code generation'', fallback = None\<rparr>
                \<and> provider (pickLLMForJTBD d) \<noteq> openai)"
proof -
  have ui: "includes_str d ''ui'' \<Longrightarrow> includes_str s ''ui''"
    unfolding s_def by (rule includes_str_toLowerCase) (simp_all add: toLowerCase_ui)
  show ?thesis
    using ui by (simp add: pickLLMForJTBD_def s_def Let_def)
qed

text \<open>
  The theorem at two descriptions: one with "ui" and "report", one that reaches the second
  rule only after lower-casing.
\<close>

theorem pickLLMForJTBD_precedence_witness:
  "includes_str ''ui for the weekly report'' ''ui''
   \<and> includes_str ''ui for the weekly report'' ''report''
   \<and> pickLLMForJTBD ''ui for the weekly report'' =
       \<lparr>provider = googleai, model = ''gemini-2.0-pro-exp'',
        reason = ''front-end code generation'', fallback = None\<rparr>
   \<and> includes_str (toLowerCase ''Summary of the Data'') ''summary''
   \<and> fallback (pickLLMForJTBD ''Summary of the Data'') \<noteq> None"
proof -
  have a: "includes_str ''ui for the weekly report'' ''ui''" by simp
  have b: "includes_str ''ui for the weekly report'' ''report''" by simp
  have l: "toLowerCase ''Summary of the Data'' = ''summary of the data''"
    by (simp add: toLowerCase_def lower_char_def)
  have c: "includes_str (toLowerCase ''Summary of the Data'') ''summary''"
    unfolding l by simp
  have n: "\<not> (includes_str (toLowerCase ''Summary of the Data'') ''ui''
              \<or> includes_str (toLowerCase ''Summary of the Data'') ''interface''
              \<or> includes_str (toLowerCase ''Summary of the Data'') ''dashboard'')"
    unfolding l by simp
  from pickLLMForJTBD_precedence [of "''ui for the weekly report''"] a b
  have 1: "pickLLMForJTBD ''ui for the weekly report'' =
       \<lparr>provider = googleai, model = ''gemini-2.0-pro-exp'',
        reason = ''front-end code generation'', fallback = None\<rparr>" by blast
  from pickLLMForJTBD_precedence [of "''Summary of the Data''"] c n
  have 2: "pickLLMForJTBD ''Summary of the Data'' =
       \<lparr>provider = anthropic, model = ''claude-3.7-sonnet'',
                   reason = ''long-form & nuance'',
                   fallback = Some \<lparr>fb_provider = openai, fb_model = ''gpt-5-mini'',
                                     fb_reason = ''budget alternative''\<rparr>\<rparr>" by blast
  show ?thesis using a b c 1 2 by simp
qed

section \<open>Response Parser\<close>

lemma map_throwing_Inr_iff:
  "map_throwing f xs = Inr ys \<longleftrightarrow> list_all2 (\<lambda>x y. f x = Inr y) xs ys"
proof (induction xs arbitrary: ys)
  case Nil
  show ?case by auto
next
  case (Cons x xs)
  show ?case
  proof (cases "f x")
    case (Inl e)
    then show ?thesis by (auto simp: list_all2_Cons1)
  next
    case fx: (Inr y)
    show ?thesis
    proof (cases "map_throwing f xs")
      case (Inl e)
      with Cons.IH have "\<And>zs. \<not> list_all2 (\<lambda>x y. f x = Inr y) xs zs" by simp
      with fx Inl show ?thesis by (auto simp: list_all2_Cons1)
    next
      case (Inr zs)
      with Cons.IH have "\<And>ws. list_all2 (\<lambda>x y. f x = Inr y) xs ws \<longleftrightarrow> ws = zs"
        by (metis sum.inject(2))
      with fx Inr show ?thesis by (auto simp: list_all2_Cons1)
    qed
  qed
qed

lemma map_throwing_Inl:
  "x \<in> set xs \<Longrightarrow> f x = Inl e \<Longrightarrow> \<exists>e'. map_throwing f xs = Inl e'"
  by (induction xs) (auto split: sum.splits)

lemma entry_to_file_phase: "entry_to_file ph f = Inr g \<Longrightarrow> phase g = ph"
  by (auto simp: entry_to_file_def split: sum.splits)

lemma entry_to_file_object:
  assumes "map_of ps ''path'' = Some (JStr p)" and "map_of ps ''content'' = Some (JStr c)"
    and "p \<noteq> []" and "c \<noteq> []"
  shows "entry_to_file ph (JObj ps) = Inr \<lparr>path = JStr p, content = JStr c, phase = ph\<rparr>"
  using assms by (simp add: entry_to_file_def)

lemma entry_to_file_null: "entry_to_file ph JNull = Inl (TypeError ''Cannot read properties of null (reading path)'')"
  by (simp add: entry_to_file_def)

text \<open>
  Claim C6, as amended. When the response parses to an array of objects whose \<^verbatim>\<open>path\<close> and
  \<^verbatim>\<open>content\<close> are non-empty strings, \<open>parseCodeResponse\<close> returns, for every phase name, a list
  of the same length that carries exactly these paths and contents, each entry tagged with
  the requested phase.
\<close>

theorem parseCodeResponse_roundtrip:
  assumes parsed: "JSON_parse env response = Some (JArr entries)"
    and shape: "list_all2 (\<lambda>f (p, c). \<exists>ps. f = JObj ps \<and> map_of ps ''path'' = Some (JStr p)
                                       \<and> map_of ps ''content'' = Some (JStr c)) entries pcs"
    and nonempty: "\<forall>(p, c) \<in> set pcs. p \<noteq> [] \<and> c \<noteq> []"
  shows "parseCodeResponse env response ph =
           map (\<lambda>(p, c). \<lparr>path = JStr p, content = JStr c, phase = ph\<rparr>) pcs
         \<and> length (parseCodeResponse env response ph) = length entries"
proof -
  let ?out = "map (\<lambda>(p, c). \<lparr>path = JStr p, content = JStr c, phase = ph\<rparr>) pcs"
  from shape nonempty
  have "list_all2 (\<lambda>f g. entry_to_file ph f = Inr g) entries ?out"
  proof (induction entries pcs rule: list_all2_induct)
    case Nil
    show ?case by simp
  next
    case (Cons f fs pc pcs)
    obtain p c where pc: "pc = (p, c)" by (cases pc)
    from Cons.hyps(1) pc obtain ps where
      "f = JObj ps" "map_of ps ''path'' = Some (JStr p)" "map_of ps ''content'' = Some (JStr c)"
      by auto
    moreover from Cons.prems pc have "p \<noteq> []" "c \<noteq> []" by auto
    ultimately have "entry_to_file ph f = Inr \<lparr>path = JStr p, content = JStr c, phase = ph\<rparr>"
      by (simp add: entry_to_file_object)
    moreover from Cons.IH Cons.prems
    have "list_all2 (\<lambda>f g. entry_to_file ph f = Inr g) fs
            (map (\<lambda>(p, c). \<lparr>path = JStr p, content = JStr c, phase = ph\<rparr>) pcs)"
      by simp
    ultimately show ?case using pc by simp
  qed
  then have "map_throwing (entry_to_file ph) entries = Inr ?out"
    by (simp add: map_throwing_Inr_iff)
  with parsed have "parseCodeResponse env response ph = ?out"
    by (simp add: parseCodeResponse_def)
  moreover from shape have "length entries = length pcs"
    by (rule list_all2_lengthD)
  ultimately show ?thesis by simp
qed

text \<open>The theorem at a one-file response of the foundation phase.\<close>

theorem parseCodeResponse_roundtrip_witness:
  "JSON_parse example_env ''[{\"path\":\"src/App.tsx\",\"content\":\"export default App\"}]'' =
     Some (JArr [JObj [(''path'', JStr ''src/App.tsx''), (''content'', JStr ''export default App'')]])
   \<and> parseCodeResponse example_env
        ''[{\"path\":\"src/App.tsx\",\"content\":\"export default App\"}]'' ''foundation'' =
       [\<lparr>path = JStr ''src/App.tsx'', content = JStr ''export default App'',
         phase = ''foundation''\<rparr>]"
proof -
  have p: "JSON_parse example_env ''[{\"path\":\"src/App.tsx\",\"content\":\"export default App\"}]'' =
     Some (JArr [JObj [(''path'', JStr ''src/App.tsx''), (''content'', JStr ''export default App'')]])"
    by (simp add: example_env_def example_parse_def)
  have s: "list_all2 (\<lambda>f (p, c). \<exists>ps. f = JObj ps \<and> map_of ps ''path'' = Some (JStr p)
                                       \<and> map_of ps ''content'' = Some (JStr c))
             [JObj [(''path'', JStr ''src/App.tsx''), (''content'', JStr ''export default App'')]]
             [(''src/App.tsx'', ''export default App'')]"
    by simp
  have n: "\<forall>(p, c) \<in> set [(''src/App.tsx'', ''export default App'')]. p \<noteq> [] \<and> c \<noteq> []"
    by simp
  from parseCodeResponse_roundtrip [OF p s n, of "''foundation''"] p
  show ?thesis by simp
qed

text \<open>
  The claim as first stated asks for the same round trip on every array of
  \<^verbatim>\<open>{path, content}\<close> objects. It does not hold when a path or a content is the empty
  string, which \<^verbatim>\<open>||\<close> treats as missing: the empty path becomes \<^verbatim>\<open>phase-core.txt\<close>, and
  the empty content of \<^verbatim>\<open>src/.gitkeep\<close> becomes the entry object itself.
\<close>

theorem parseCodeResponse_roundtrip_counterexample:
  "JSON_parse example_env
     ''[{\"path\":\"\",\"content\":\"x\"},{\"path\":\"src/.gitkeep\",\"content\":\"\"}]'' =
     Some (JArr [JObj [(''path'', JStr []), (''content'', JStr ''x'')],
                 JObj [(''path'', JStr ''src/.gitkeep''), (''content'', JStr [])]])
   \<and> parseCodeResponse example_env
        ''[{\"path\":\"\",\"content\":\"x\"},{\"path\":\"src/.gitkeep\",\"content\":\"\"}]'' ''core'' =
       [\<lparr>path = JStr ''phase-core.txt'', content = JStr ''x'', phase = ''core''\<rparr>,
        \<lparr>path = JStr ''src/.gitkeep'',
         content = JObj [(''path'', JStr ''src/.gitkeep''), (''content'', JStr [])],
         phase = ''core''\<rparr>]
   \<and> parseCodeResponse example_env
        ''[{\"path\":\"\",\"content\":\"x\"},{\"path\":\"src/.gitkeep\",\"content\":\"\"}]'' ''core'' \<noteq>
       [\<lparr>path = JStr [], content = JStr ''x'', phase = ''core''\<rparr>,
        \<lparr>path = JStr ''src/.gitkeep'', content = JStr [], phase = ''core''\<rparr>]"
  by (simp add: parseCodeResponse_def example_env_def example_parse_def entry_to_file_def)

text \<open>
  Claim C7. The two parsers are total functions into file lists: every throw of the source
  lies inside a \<^verbatim>\<open>try\<close> whose \<^verbatim>\<open>catch\<close> returns a file. For the planning phase a parseable
  response gives exactly the one file \<^verbatim>\<open>project-structure.json\<close>, an unparseable one exactly
  the one file \<^verbatim>\<open>planning-notes.txt\<close> holding the raw text. For any other phase a response
  that does not parse, or parses to something that is not an array, gives a single file
  whose content is the raw text; so does an array whose mapping throws on a \<^verbatim>\<open>null\<close> entry.
\<close>

theorem response_parser_fallbacks:
  "(JSON_parse env response = Some data \<longrightarrow>
      parsePlanningResponse env response ph =
        [\<lparr>path = JStr ''project-structure.json'', content = JStr (JSON_stringify env data),
          phase = ph\<rparr>])
   \<and> (JSON_parse env response = None \<longrightarrow>
      parsePlanningResponse env response ph =
        [\<lparr>path = JStr ''planning-notes.txt'', content = JStr response, phase = ph\<rparr>])
   \<and> (JSON_parse env response = None
        \<or> (\<exists>v. JSON_parse env response = Some v \<and> (\<forall>entries. v \<noteq> JArr entries)) \<longrightarrow>
      parseCodeResponse env response ph =
        [\<lparr>path = JStr (''phase-'' @ ph @ ''.tsx''), content = JStr response, phase = ph\<rparr>])
   \<and> (\<forall>entries. JSON_parse env response = Some (JArr entries) \<and> JNull \<in> set entries \<longrightarrow>
      parseCodeResponse env response ph =
        [\<lparr>path = JStr (''phase-'' @ ph @ ''.tsx''), content = JStr response, phase = ph\<rparr>])"
proof (intro conjI impI allI)
  assume "JSON_parse env response = Some data"
  then show "parsePlanningResponse env response ph =
        [\<lparr>path = JStr ''project-structure.json'', content = JStr (JSON_stringify env data),
          phase = ph\<rparr>]"
    by (simp add: parsePlanningResponse_def)
next
  assume "JSON_parse env response = None"
  then show "parsePlanningResponse env response ph =
        [\<lparr>path = JStr ''planning-notes.txt'', content = JStr response, phase = ph\<rparr>]"
    by (simp add: parsePlanningResponse_def)
next
  assume "JSON_parse env response = None
        \<or> (\<exists>v. JSON_parse env response = Some v \<and> (\<forall>entries. v \<noteq> JArr entries))"
  then show "parseCodeResponse env response ph =
        [\<lparr>path = JStr (''phase-'' @ ph @ ''.tsx''), content = JStr response, phase = ph\<rparr>]"
    by (auto simp: parseCodeResponse_def fallback_file_def split: option.splits jsval.splits)
next
  fix entries
  assume a: "JSON_parse env response = Some (JArr entries) \<and> JNull \<in> set entries"
  then obtain e where "map_throwing (entry_to_file ph) entries = Inl e"
    using map_throwing_Inl [of JNull entries "entry_to_file ph", OF _ entry_to_file_null] by blast
  with a show "parseCodeResponse env response ph =
        [\<lparr>path = JStr (''phase-'' @ ph @ ''.tsx''), content = JStr response, phase = ph\<rparr>]"
    by (simp add: parseCodeResponse_def fallback_file_def)
qed

text \<open>The theorem at a JSON object and at plain text, for the planning and the core phase.\<close>

theorem response_parser_fallbacks_witness:
  "JSON_parse example_env ''{\"files\":[]}'' = Some (JObj [(''files'', JArr [])])
   \<and> parsePlanningResponse example_env ''{\"files\":[]}'' ''planning'' =
       [\<lparr>path = JStr ''project-structure.json'',
         content = JStr (''{'' @ [CHR 0x0A] @ ''  \"files\": []'' @ [CHR 0x0A] @ ''}''),
         phase = ''planning''\<rparr>]
   \<and> JSON_parse example_env ''Plan: start with the layout.'' = None
   \<and> parsePlanningResponse example_env ''Plan: start with the layout.'' ''planning'' =
       [\<lparr>path = JStr ''planning-notes.txt'', content = JStr ''Plan: start with the layout.'',
         phase = ''planning''\<rparr>]
   \<and> parseCodeResponse example_env ''Plan: start with the layout.'' ''core'' =
       [\<lparr>path = JStr ''phase-core.tsx'', content = JStr ''Plan: start with the layout.'',
         phase = ''core''\<rparr>]
   \<and> parseCodeResponse example_env ''{\"files\":[]}'' ''core'' =
       [\<lparr>path = JStr ''phase-core.tsx'', content = JStr ''{\"files\":[]}'', phase = ''core''\<rparr>]"
proof -
  have a: "JSON_parse example_env ''{\"files\":[]}'' = Some (JObj [(''files'', JArr [])])"
    by (simp add: example_env_def example_parse_def)
  have b: "JSON_parse example_env ''Plan: start with the layout.'' = None"
    by (simp add: example_env_def example_parse_def)
  have s: "JSON_stringify example_env (JObj [(''files'', JArr [])]) =
             ''{'' @ [CHR 0x0A] @ ''  \"files\": []'' @ [CHR 0x0A] @ ''}''"
    by (simp add: example_env_def example_stringify_def)
  have c: "\<exists>v. JSON_parse example_env ''{\"files\":[]}'' = Some v \<and> (\<forall>entries. v \<noteq> JArr entries)"
    using a by simp
  from response_parser_fallbacks [of example_env "''{\"files\":[]}''" "JObj [(''files'', JArr [])]" "''planning''"] a s
  have 1: "parsePlanningResponse example_env ''{\"files\":[]}'' ''planning'' =
       [\<lparr>path = JStr ''project-structure.json'',
         content = JStr (''{'' @ [CHR 0x0A] @ ''  \"files\": []'' @ [CHR 0x0A] @ ''}''),
         phase = ''planning''\<rparr>]" by simp
  from response_parser_fallbacks [of example_env "''Plan: start with the layout.''" _ "''planning''"] b
  have 2: "parsePlanningResponse example_env ''Plan: start with the layout.'' ''planning'' =
       [\<lparr>path = JStr ''planning-notes.txt'', content = JStr ''Plan: start with the layout.'',
         phase = ''planning''\<rparr>]" by blast
  from response_parser_fallbacks [of example_env "''Plan: start with the layout.''" _ "''core''"] b
  have 3: "parseCodeResponse example_env ''Plan: start with the layout.'' ''core'' =
       [\<lparr>path = JStr ''phase-core.tsx'', content = JStr ''Plan: start with the layout.'',
         phase = ''core''\<rparr>]" by simp
  from response_parser_fallbacks [of example_env "''{\"files\":[]}''" _ "''core''"] c
  have 4: "parseCodeResponse example_env ''{\"files\":[]}'' ''core'' =
       [\<lparr>path = JStr ''phase-core.tsx'', content = JStr ''{\"files\":[]}'', phase = ''core''\<rparr>]"
    by simp
  show ?thesis using a b 1 2 3 4 by simp
qed

section \<open>Phase Orchestrator\<close>

subsection \<open>The phase loop\<close>

lemma parsePlanningResponse_phase:
  "f \<in> set (parsePlanningResponse env response ph) \<Longrightarrow> phase f = ph"
  by (auto simp: parsePlanningResponse_def split: option.splits)

lemma parseCodeResponse_phase:
  assumes "f \<in> set (parseCodeResponse env response ph)"
  shows "phase f = ph"
proof (cases "\<exists>entries out. JSON_parse env response = Some (JArr entries)
                \<and> map_throwing (entry_to_file ph) entries = Inr out")
  case True
  then obtain entries out where p: "JSON_parse env response = Some (JArr entries)"
    and m: "map_throwing (entry_to_file ph) entries = Inr out" by blast
  from p m have "parseCodeResponse env response ph = out"
    by (simp add: parseCodeResponse_def)
  with assms have "f \<in> set out" by simp
  moreover from m have "list_all2 (\<lambda>x y. entry_to_file ph x = Inr y) entries out"
    by (simp add: map_throwing_Inr_iff)
  ultimately obtain x where "entry_to_file ph x = Inr f"
    by (auto simp: list_all2_conv_all_nth in_set_conv_nth)
  then show ?thesis by (rule entry_to_file_phase)
next
  case False
  then have "parseCodeResponse env response ph = fallback_file response ph"
    by (auto simp: parseCodeResponse_def split: option.splits jsval.splits sum.splits)
  with assms show ?thesis by (simp add: fallback_file_def)
qed

lemma tag_ui_files_phase:
  "tag_ui_files uiResult ph = Inr out \<Longrightarrow> f \<in> set out \<Longrightarrow> phase f = ph"
  by (auto simp: tag_ui_files_def split: sum.splits jsval.splits)

lemma generatePhase_phase:
  assumes "generatePhase env request ph prev = (Inr out, evs)" and "f \<in> set out"
  shows "phase f = ph"
  using assms
  by (auto simp: generatePhase_def Let_def split: if_splits sum.splits
           dest: parsePlanningResponse_phase parseCodeResponse_phase tag_ui_files_phase)

text \<open>The LLM call is the one effect of \<open>generatePhase\<close>, made exactly when the prompt was built.\<close>

lemma generatePhase_events:
  "snd (generatePhase env request ph prev) =
     (if isl (buildPhasePrompt request ph prev) then [] else [LLMCalled ph])"
  by (simp add: generatePhase_def Let_def split: sum.splits)

lemma generatePhase_prompt_throws:
  "buildPhasePrompt request ph prev = Inl e \<Longrightarrow> generatePhase env request ph prev = (Inl e, [])"
  by (simp add: generatePhase_def Let_def)

lemma generatePhase_Inr_events:
  "generatePhase env request ph prev = (Inr out, evs) \<Longrightarrow> evs = [LLMCalled ph]"
  by (auto simp: generatePhase_def Let_def split: sum.splits)

lemma generatePhase_events_cases:
  assumes "generatePhase env request ph prev = (r, evs)"
  shows "evs = [] \<or> evs = [LLMCalled ph]"
  using generatePhase_events [of env request ph prev] assms by (auto split: if_splits)

lemma runPhases_ConsE:
  assumes "runPhases env request (p # rest) allFiles cur = (fs, n, tr)"
  obtains
    (rejected) e tr' where
      "progress_fetch env (phase_update p cur) = Some e"
      "runPhases env request rest allFiles cur = (fs, n, tr')"
      "tr = Posted (phase_update p cur) # ErrorLogged (fst p) # tr'"
  | (failed) e evs tr' where
      "progress_fetch env (phase_update p cur) = None"
      "generatePhase env request (fst p) allFiles = (Inl e, evs)"
      "evs = [] \<or> evs = [LLMCalled (fst p)]"
      "runPhases env request rest allFiles cur = (fs, n, tr')"
      "tr = Posted (phase_update p cur) # evs @ ErrorLogged (fst p) # tr'"
  | (succeeded) out tr' where
      "progress_fetch env (phase_update p cur) = None"
      "generatePhase env request (fst p) allFiles = (Inr out, [LLMCalled (fst p)])"
      "runPhases env request rest (allFiles @ out) (cur + 1) = (fs, n, tr')"
      "tr = Posted (phase_update p cur) # LLMCalled (fst p) # tr'"
proof (cases "progress_fetch env (phase_update p cur)")
  case (Some e)
  with assms show thesis
    by (auto simp: Let_def split: prod.splits intro: rejected)
next
  case None
  obtain r evs where g: "generatePhase env request (fst p) allFiles = (r, evs)"
    by (cases "generatePhase env request (fst p) allFiles") auto
  show thesis
  proof (cases r)
    case (Inl e)
    with assms None g generatePhase_events_cases [OF g] show thesis
      by (auto simp: Let_def split: prod.splits intro: failed)
  next
    case (Inr out)
    with g have "evs = [LLMCalled (fst p)]"
      by (auto dest: generatePhase_Inr_events)
    with assms None g Inr show thesis
      by (auto simp: Let_def split: prod.splits intro: succeeded)
  qed
qed

lemma runPhases_posted_phases:
  "runPhases env request ps allFiles cur = (fs, n, tr) \<Longrightarrow> map pu_phase (posted tr) = map fst ps"
proof (induction ps arbitrary: allFiles cur fs n tr)
  case Nil
  then show ?case by simp
next
  case (Cons p rest)
  from Cons.prems show ?case
    by (cases rule: runPhases_ConsE) (auto dest: Cons.IH)
qed

lemma runPhases_posted_status:
  "runPhases env request ps allFiles cur = (fs, n, tr) \<Longrightarrow> u \<in> set (posted tr)
     \<Longrightarrow> status u = ''generating''"
proof (induction ps arbitrary: allFiles cur fs n tr)
  case Nil
  then show ?case by simp
next
  case (Cons p rest)
  from Cons.prems(1) show ?case
    by (cases rule: runPhases_ConsE) (use Cons.prems(2) in \<open>auto dest: Cons.IH\<close>)
qed

text \<open>The accumulated list only grows, and a phase adds files of its own tag only.\<close>

lemma runPhases_files_grow:
  "runPhases env request ps allFiles cur = (fs, n, tr) \<Longrightarrow> set allFiles \<subseteq> set fs"
proof (induction ps arbitrary: allFiles cur fs n tr)
  case Nil
  then show ?case by simp
next
  case (Cons p rest)
  from Cons.prems show ?case
    by (cases rule: runPhases_ConsE) (auto dest!: Cons.IH)
qed

lemma runPhases_file_tags:
  "runPhases env request ps allFiles cur = (fs, n, tr) \<Longrightarrow> f \<in> set fs
     \<Longrightarrow> f \<in> set allFiles \<or> phase f \<in> fst ` set ps"
proof (induction ps arbitrary: allFiles cur fs n tr)
  case Nil
  then show ?case by simp
next
  case (Cons p rest)
  from Cons.prems(1) show ?case
  proof (cases rule: runPhases_ConsE)
    case (rejected e tr')
    from Cons.IH [OF rejected(2) Cons.prems(2)] show ?thesis by auto
  next
    case (failed e evs tr')
    from Cons.IH [OF failed(4) Cons.prems(2)] show ?thesis by auto
  next
    case (succeeded out tr')
    from Cons.IH [OF succeeded(3) Cons.prems(2)]
    consider "f \<in> set allFiles" | "f \<in> set out" | "phase f \<in> fst ` set rest" by auto
    then show ?thesis
    proof cases
      case 2
      with succeeded(2) have "phase f = fst p" by (rule generatePhase_phase)
      then show ?thesis by simp
    qed auto
  qed
qed

text \<open>A run over two stretches of phases is the run over the first, then over the second.\<close>

lemma runPhases_append:
  assumes "runPhases env request ps1 allFiles cur = (fs1, n1, tr1)"
    and "runPhases env request ps2 fs1 n1 = (fs, n, tr2)"
  shows "runPhases env request (ps1 @ ps2) allFiles cur = (fs, n, tr1 @ tr2)"
  using assms
proof (induction ps1 arbitrary: allFiles cur fs1 n1 tr1)
  case Nil
  then show ?case by simp
next
  case (Cons p rest)
  from Cons.prems(1) show ?case
  proof (cases rule: runPhases_ConsE)
    case (rejected e tr')
    from Cons.IH [OF rejected(2) Cons.prems(2)] rejected(1,3) show ?thesis
      by (simp add: Let_def)
  next
    case (failed e evs tr')
    from Cons.IH [OF failed(4) Cons.prems(2)] failed(1,2,5) show ?thesis
      by (simp add: Let_def)
  next
    case (succeeded out tr')
    from Cons.IH [OF succeeded(3) Cons.prems(2)] succeeded(1,2,4) show ?thesis
      by (simp add: Let_def)
  qed
qed

text \<open>
  When every path that ends up in the accumulated list converts to a string, every prompt
  is built, and a phase whose update the progress store accepted gets its LLM call.
\<close>

lemma buildPhasePrompt_Inr:
  "\<forall>f \<in> set prev. stringifiable (path f) \<Longrightarrow> \<not> isl (buildPhasePrompt request ph prev)"
  by (simp add: buildPhasePrompt_def list_all_iff)

lemma runPhases_llm_called:
  "runPhases env request ps allFiles cur = (fs, n, tr) \<Longrightarrow> q \<in> fst ` set ps
     \<Longrightarrow> \<forall>u. pu_phase u = q \<longrightarrow> progress_fetch env u = None
     \<Longrightarrow> \<forall>f \<in> set fs. stringifiable (path f)
     \<Longrightarrow> LLMCalled q \<in> set tr"
proof (induction ps arbitrary: allFiles cur fs n tr)
  case Nil
  then show ?case by simp
next
  case (Cons p rest)
  have here: "\<forall>f \<in> set allFiles. stringifiable (path f)"
    using runPhases_files_grow [OF Cons.prems(1)] Cons.prems(4) by auto
  from Cons.prems(1) show ?case
  proof (cases rule: runPhases_ConsE)
    case (rejected e tr')
    with Cons.prems(3) have "fst p \<noteq> q" by auto
    with Cons.prems(2) have "q \<in> fst ` set rest" by auto
    from Cons.IH [OF rejected(2) this Cons.prems(3,4)] rejected(3) show ?thesis by simp
  next
    case (failed e evs tr')
    have "evs = [LLMCalled (fst p)]"
      using generatePhase_events [of env request "fst p" allFiles] failed(2)
            buildPhasePrompt_Inr [OF here, of request "fst p"]
      by simp
    show ?thesis
    proof (cases "fst p = q")
      case True
      with failed(5) \<open>evs = [LLMCalled (fst p)]\<close> show ?thesis by simp
    next
      case False
      with Cons.prems(2) have "q \<in> fst ` set rest" by auto
      from Cons.IH [OF failed(4) this Cons.prems(3,4)] failed(5) show ?thesis by simp
    qed
  next
    case (succeeded out tr')
    show ?thesis
    proof (cases "fst p = q")
      case True
      with succeeded(4) show ?thesis by simp
    next
      case False
      with Cons.prems(2) have "q \<in> fst ` set rest" by auto
      from Cons.IH [OF succeeded(3) this Cons.prems(3,4)] succeeded(4) show ?thesis by simp
    qed
  qed
qed

lemma progress_mono:
  "(a::nat) \<le> b \<Longrightarrow>
     (of_nat a :: rat) / of_nat (length phases) * 100 \<le> of_nat b / of_nat (length phases) * 100"
  by (simp add: phases_def divide_right_mono)

lemma runPhases_progress_bounds:
  "runPhases env request ps allFiles cur = (fs, n, tr) \<Longrightarrow> u \<in> set (posted tr)
     \<Longrightarrow> of_nat cur / of_nat (length phases) * 100 \<le> progress u
         \<and> progress u \<le> of_nat (cur + length ps) / of_nat (length phases) * 100"
proof (induction ps arbitrary: allFiles cur fs n tr)
  case Nil
  then show ?case by simp
next
  case (Cons p rest)
  have up: "of_nat cur / of_nat (length phases) * 100
              \<le> (of_nat (cur + length (p # rest)) :: rat) / of_nat (length phases) * 100"
    by (rule progress_mono) simp
  have step: "of_nat cur / of_nat (length phases) * 100
              \<le> (of_nat (cur + 1) :: rat) / of_nat (length phases) * 100"
    by (rule progress_mono) simp
  have same: "(of_nat (cur + length rest) :: rat) / of_nat (length phases) * 100
              \<le> of_nat (cur + length (p # rest)) / of_nat (length phases) * 100"
    by (rule progress_mono) simp
  from Cons.prems(1) show ?case
  proof (cases rule: runPhases_ConsE)
    case (rejected e tr')
    from Cons.prems(2) rejected(3) consider "u = phase_update p cur" | "u \<in> set (posted tr')"
      by auto
    then show ?thesis
    proof cases
      case 1 with up show ?thesis by simp
    next
      case 2
      from Cons.IH [OF rejected(2) 2] same show ?thesis by linarith
    qed
  next
    case (failed e evs tr')
    from Cons.prems(2) failed(3,5) consider "u = phase_update p cur" | "u \<in> set (posted tr')"
      by auto
    then show ?thesis
    proof cases
      case 1 with up show ?thesis by simp
    next
      case 2
      from Cons.IH [OF failed(4) 2] same show ?thesis by linarith
    qed
  next
    case (succeeded out tr')
    from Cons.prems(2) succeeded(4) consider "u = phase_update p cur" | "u \<in> set (posted tr')"
      by auto
    then show ?thesis
    proof cases
      case 1 with up show ?thesis by simp
    next
      case 2
      from Cons.IH [OF succeeded(3) 2] step show ?thesis by simp
    qed
  qed
qed

lemma runPhases_progress_sorted:
  "runPhases env request ps allFiles cur = (fs, n, tr) \<Longrightarrow> sorted (map progress (posted tr))"
proof (induction ps arbitrary: allFiles cur fs n tr)
  case Nil
  then show ?case by simp
next
  case (Cons p rest)
  have step: "of_nat cur / of_nat (length phases) * 100
              \<le> (of_nat (cur + 1) :: rat) / of_nat (length phases) * 100"
    by (rule progress_mono) simp
  from Cons.prems(1) show ?case
  proof (cases rule: runPhases_ConsE)
    case (rejected e tr')
    from runPhases_progress_bounds [OF rejected(2)] Cons.IH [OF rejected(2)] rejected(3)
    show ?thesis by auto
  next
    case (failed e evs tr')
    from runPhases_progress_bounds [OF failed(4)] Cons.IH [OF failed(4)] failed(3,5)
    show ?thesis by auto
  next
    case (succeeded out tr')
    from runPhases_progress_bounds [OF succeeded(3)] step
    have "\<forall>u \<in> set (posted tr'). of_nat cur / of_nat (length phases) * 100 \<le> progress u"
      by fastforce
    with Cons.IH [OF succeeded(3)] succeeded(4)
    show ?thesis by auto
  qed
qed

lemma runPhases_progress_formula:
  "runPhases env request ps allFiles cur = (fs, n, tr) \<Longrightarrow> tr = pre @ Posted u # post
     \<Longrightarrow> progress u =
           (of_nat cur + of_nat (length (posted pre)) - of_nat (length (failures pre)))
             / of_nat (length phases) * 100"
proof (induction ps arbitrary: allFiles cur fs n tr pre)
  case Nil
  then show ?case by simp
next
  case (Cons p rest)
  from Cons.prems(1) show ?case
  proof (cases rule: runPhases_ConsE)
    case (rejected e tr')
    show ?thesis
    proof (cases pre)
      case Nil
      with Cons.prems(2) rejected(3) show ?thesis by auto
    next
      case c1: (Cons a pre1)
      with Cons.prems(2) rejected(3) have a: "a = Posted (phase_update p cur)"
        and r1: "ErrorLogged (fst p) # tr' = pre1 @ Posted u # post" by auto
      from r1 obtain pre2 where p2: "pre1 = ErrorLogged (fst p) # pre2"
        and r2: "tr' = pre2 @ Posted u # post"
        by (cases pre1) auto
      from Cons.IH [OF rejected(2) r2] show ?thesis
        by (simp add: c1 a p2)
    qed
  next
    case (failed e evs tr')
    show ?thesis
    proof (cases pre)
      case Nil
      with Cons.prems(2) failed(5) show ?thesis by auto
    next
      case c1: (Cons a pre1)
      with Cons.prems(2) failed(5) have a: "a = Posted (phase_update p cur)"
        and r0: "evs @ ErrorLogged (fst p) # tr' = pre1 @ Posted u # post" by auto
      from failed(3) show ?thesis
      proof
        assume "evs = []"
        with r0 have r1: "ErrorLogged (fst p) # tr' = pre1 @ Posted u # post" by simp
        then obtain pre2 where p2: "pre1 = ErrorLogged (fst p) # pre2"
          and r2: "tr' = pre2 @ Posted u # post"
          by (cases pre1) auto
        from Cons.IH [OF failed(4) r2] show ?thesis
          by (simp add: c1 a p2)
      next
        assume "evs = [LLMCalled (fst p)]"
        with r0 have r1: "LLMCalled (fst p) # ErrorLogged (fst p) # tr' = pre1 @ Posted u # post"
          by simp
        then obtain pre2 where p2: "pre1 = LLMCalled (fst p) # pre2"
          and r2: "ErrorLogged (fst p) # tr' = pre2 @ Posted u # post"
          by (cases pre1) auto
        from r2 obtain pre3 where p3: "pre2 = ErrorLogged (fst p) # pre3"
          and r3: "tr' = pre3 @ Posted u # post"
          by (cases pre2) auto
        from Cons.IH [OF failed(4) r3] show ?thesis
          by (simp add: c1 a p2 p3)
      qed
    qed
  next
    case (succeeded out tr')
    show ?thesis
    proof (cases pre)
      case Nil
      with Cons.prems(2) succeeded(4) show ?thesis by auto
    next
      case c1: (Cons a pre1)
      with Cons.prems(2) succeeded(4) have a: "a = Posted (phase_update p cur)"
        and r1: "LLMCalled (fst p) # tr' = pre1 @ Posted u # post" by auto
      from r1 obtain pre2 where p2: "pre1 = LLMCalled (fst p) # pre2"
        and r2: "tr' = pre2 @ Posted u # post"
        by (cases pre1) auto
      from Cons.IH [OF succeeded(3) r2] show ?thesis
        by (simp add: c1 a p2 add.commute)
    qed
  qed
qed

subsection \<open>The end of a run\<close>

lemma posted_append: "posted (xs @ ys) = posted xs @ posted ys"
  by (induction xs rule: posted.induct) auto

lemma posted_set: "u \<in> set (posted tr) \<longleftrightarrow> Posted u \<in> set tr"
  by (induction tr rule: posted.induct) auto

lemma put_assets_events:
  "e \<in> set (snd (put_assets store agentId as)) \<Longrightarrow> \<exists>k. e = AssetPut k"
  by (induction as) (auto simp: Let_def split: option.splits prod.splits)

lemma only_puts_posted: "\<forall>e \<in> set tr. \<exists>k. e = AssetPut k \<Longrightarrow> posted tr = []"
  by (induction tr) auto

lemma put_assets_posted: "posted (snd (put_assets store agentId as)) = []"
  by (rule only_puts_posted) (blast dest: put_assets_events)

lemma put_assets_accepted:
  "\<forall>key body ty. put key body ty = None \<Longrightarrow> fst (put_assets (Some put) agentId as) = None"
  by (induction as) (auto simp: Let_def split: prod.splits)

text \<open>The three ways a run ends.\<close>

lemma generateApp_cases:
  obtains
    (store_failed) fs n tr1 e tr2 where
      "runPhases env request phases [] 0 = (fs, n, tr1)"
      "put_assets (AGENT_ASSETS env) agentId executeBuild_assets = (Some e, tr2)"
      "generateApp env request agentId = (Inl e, tr1 @ tr2)"
  | (post_failed) fs n tr1 tr2 res e where
      "runPhases env request phases [] 0 = (fs, n, tr1)"
      "put_assets (AGENT_ASSETS env) agentId executeBuild_assets = (None, tr2)"
      "files res = fs"
      "progress_fetch env \<lparr>pu_phase = ''complete'', progress = 100, status = ''completed'',
                            result = Some res\<rparr> = Some e"
      "generateApp env request agentId =
         (Inl e, tr1 @ tr2 @ [Posted \<lparr>pu_phase = ''complete'', progress = 100,
                                       status = ''completed'', result = Some res\<rparr>])"
  | (completed) fs n tr1 tr2 res where
      "runPhases env request phases [] 0 = (fs, n, tr1)"
      "put_assets (AGENT_ASSETS env) agentId executeBuild_assets = (None, tr2)"
      "files res = fs"
      "progress_fetch env \<lparr>pu_phase = ''complete'', progress = 100, status = ''completed'',
                            result = Some res\<rparr> = None"
      "generateApp env request agentId =
         (Inr res, tr1 @ tr2 @ [Posted \<lparr>pu_phase = ''complete'', progress = 100,
                                         status = ''completed'', result = Some res\<rparr>])"
proof -
  obtain fs n tr1 where r: "runPhases env request phases [] 0 = (fs, n, tr1)"
    by (cases "runPhases env request phases [] 0") auto
  obtain failure tr2 where p: "put_assets (AGENT_ASSETS env) agentId executeBuild_assets = (failure, tr2)"
    by (cases "put_assets (AGENT_ASSETS env) agentId executeBuild_assets") auto
  let ?res = "\<lparr>files = fs, preview_url = Some (''https://'' @ agentId @ ''.yourdomain.com''),
               deployment_id = Some agentId,
               build_result = Some (buildGeneratedApp env fs request agentId)\<rparr>"
  show thesis
  proof (cases failure)
    case (Some e)
    with r p have "generateApp env request agentId = (Inl e, tr1 @ tr2)"
      by (simp add: generateApp_def createPreviewAndDeploy_def buildGeneratedApp_def Let_def)
    with r p Some show thesis by (auto intro: store_failed)
  next
    case None
    show thesis
    proof (cases "progress_fetch env \<lparr>pu_phase = ''complete'', progress = 100,
                     status = ''completed'', result = Some ?res\<rparr>")
      case n: None
      with r p None have "generateApp env request agentId =
         (Inr ?res, tr1 @ tr2 @ [Posted \<lparr>pu_phase = ''complete'', progress = 100,
                                         status = ''completed'', result = Some ?res\<rparr>])"
        by (simp add: generateApp_def createPreviewAndDeploy_def buildGeneratedApp_def Let_def)
      with r p None n show thesis by (auto intro: completed [of fs n tr1 tr2 ?res])
    next
      case s: (Some e)
      with r p None have "generateApp env request agentId =
         (Inl e, tr1 @ tr2 @ [Posted \<lparr>pu_phase = ''complete'', progress = 100,
                                         status = ''completed'', result = Some ?res\<rparr>])"
        by (simp add: generateApp_def createPreviewAndDeploy_def buildGeneratedApp_def Let_def)
      with r p None s show thesis by (auto intro: post_failed [of fs n tr1 tr2 ?res])
    qed
  qed
qed


subsection \<open>Completion and failure of a run\<close>

lemma runPhases_no_completed:
  assumes "runPhases env request ps allFiles cur = (fs, n, tr)"
  shows "filter (\<lambda>u. status u = ''completed'') (posted tr) = []"
  using runPhases_posted_status [OF assms] by (auto simp: filter_empty_conv)

text \<open>
  Only the phase loop is inside \<^verbatim>\<open>try\<close>. A run whose worker has no \<^verbatim>\<open>AGENT_ASSETS\<close>
  binding raises, whatever the request and whatever the phases did: the simulated build
  returns assets, and the first write reads \<^verbatim>\<open>put\<close> off the missing binding. No update
  with status "completed" is sent.
\<close>

lemma generateApp_without_store:
  assumes "AGENT_ASSETS env = None"
  shows "fst (generateApp env request agentId) =
           Inl (TypeError ''Cannot read properties of undefined (reading put)'')
       \<and> filter (\<lambda>u. status u = ''completed'') (posted (snd (generateApp env request agentId))) = []"
proof -
  have p: "put_assets (AGENT_ASSETS env) agentId executeBuild_assets =
             (Some (TypeError ''Cannot read properties of undefined (reading put)''), [])"
    using assms by (simp add: executeBuild_assets_def)
  show ?thesis
  proof (cases rule: generateApp_cases [of env request agentId])
    case (store_failed fs n tr1 e tr2)
    with p runPhases_no_completed [OF store_failed(1)] show ?thesis by simp
  next
    case (post_failed fs n tr1 tr2 res e)
    with p show ?thesis by simp
  next
    case (completed fs n tr1 tr2 res)
    with p show ?thesis by simp
  qed
qed

text \<open>
  Where the object store is bound and accepts every write, and the progress store accepts
  the final update, \<open>generateApp\<close> returns a result, and it sends exactly one update with
  status "completed", carrying progress 100 and that result. Nothing is assumed about the
  LLM gateway or about the progress posts of the phases, so this holds whichever of the six
  phases failed.
\<close>

lemma generateApp_completes:
  assumes store: "AGENT_ASSETS env = Some put"
    and writes: "\<forall>key body ty. put key body ty = None"
    and final: "\<forall>u. status u = ''completed'' \<longrightarrow> progress_fetch env u = None"
  shows "\<exists>res tr. generateApp env request agentId = (Inr res, tr)
           \<and> filter (\<lambda>u. status u = ''completed'') (posted tr) =
               [\<lparr>pu_phase = ''complete'', progress = 100, status = ''completed'',
                 result = Some res\<rparr>]"
proof (cases rule: generateApp_cases [of env request agentId])
  case (store_failed fs n tr1 e tr2)
  from put_assets_accepted [OF writes, of agentId executeBuild_assets] store store_failed(2)
  show ?thesis by simp
next
  case (post_failed fs n tr1 tr2 res e)
  with final show ?thesis by simp
next
  case (completed fs n tr1 tr2 res)
  have "posted tr2 = []"
    using put_assets_posted [of "AGENT_ASSETS env" agentId executeBuild_assets] completed(2)
    by simp
  with runPhases_no_completed [OF completed(1)] completed(5)
  show ?thesis by (simp add: posted_append)
qed

text \<open>The definitions a worked example unfolds.\<close>

lemmas run_example =
  generateApp_def createPreviewAndDeploy_def buildGeneratedApp_def executeBuild_assets_def
  example_env_def router_env_def example_request_def example_parse_def example_stringify_def
  generatePhase_def parsePlanningResponse_def parseCodeResponse_def entry_to_file_def
  buildPhasePrompt_def phases_def Let_def fallback_file_def tag_ui_files_def

text \<open>
  Claim C1, at the input where the code departs from it. The router worker calls
  \<open>generateApp\<close> with an environment made of \<^verbatim>\<open>AI_GATEWAY\<close>, \<^verbatim>\<open>GOOGLE_AI_STUDIO_API_KEY\<close> and
  \<^verbatim>\<open>AGENT_STATE\<close>, without the \<^verbatim>\<open>AGENT_ASSETS\<close> binding the worker declares. At that
  environment the run raises a \<^verbatim>\<open>TypeError\<close> to its caller after the six phases, and sends
  no update with status "completed": the six updates it sends all have status "generating".
\<close>

theorem generateApp_router_env_rejects:
  "fst (generateApp router_env example_request ''agent-1'') =
     Inl (TypeError ''Cannot read properties of undefined (reading put)'')
   \<and> filter (\<lambda>u. status u = ''completed'')
        (posted (snd (generateApp router_env example_request ''agent-1''))) = []
   \<and> map status (posted (snd (generateApp router_env example_request ''agent-1''))) =
        [''generating'', ''generating'', ''generating'', ''generating'', ''generating'',
         ''generating'']"
  by (simp add: run_example)

subsection \<open>A phase whose LLM call throws\<close>

lemma planning_without_ui: "\<not> includes_str ''planning'' ''ui''"
  by simp

lemma generatePhase_call_throws:
  assumes "buildPhasePrompt request ph prev = Inr prompt"
    and "if includes_str ph ''ui'' \<or> ph = ''styling''
         then generateUIWithGoogle env ''gemini-2.0-pro-exp'' prompt = Inl e
         else callLLM env prompt (pickLLMForJTBD (req_jtbds request)) = Inl e"
  shows "generatePhase env request ph prev = (Inl e, [LLMCalled ph])"
proof (cases "ph = ''planning''")
  case True
  with assms(2) planning_without_ui
  have "callLLM env prompt (pickLLMForJTBD (req_jtbds request)) = Inl e" by simp
  with True assms(1) show ?thesis by (simp add: generatePhase_def Let_def)
next
  case False
  with assms show ?thesis
    by (cases "includes_str ph ''ui'' \<or> ph = ''styling''")
       (simp_all add: generatePhase_def Let_def)
qed

lemma distinct_phase_names: "distinct (map fst phases)"
  by (simp add: phases_def)

lemma generateApp_trace_prefix:
  assumes "runPhases env request phases [] 0 = (fs, n, tr1)"
  shows "\<exists>rest. snd (generateApp env request agentId) = tr1 @ rest
           \<and> filter (\<lambda>u. status u = ''generating'') (posted rest) = []"
proof (cases rule: generateApp_cases [of env request agentId])
  case (store_failed fs' n' tr1' e tr2)
  with assms put_assets_posted [of "AGENT_ASSETS env" agentId executeBuild_assets]
  show ?thesis by auto
next
  case (post_failed fs' n' tr1' tr2 res e)
  with assms put_assets_posted [of "AGENT_ASSETS env" agentId executeBuild_assets]
  show ?thesis by (auto simp: posted_append)
next
  case (completed fs' n' tr1' tr2 res)
  with assms put_assets_posted [of "AGENT_ASSETS env" agentId executeBuild_assets]
  show ?thesis by (auto simp: posted_append)
qed

lemma generateApp_result_files:
  assumes "runPhases env request phases [] 0 = (fs, n, tr1)"
    and "fst (generateApp env request agentId) = Inr res"
  shows "files res = fs"
  using assms by (cases rule: generateApp_cases [of env request agentId]) auto

text \<open>
  Claim C2. Let the run reach the phase \<open>ph\<close>, one of the six, with the accumulated files
  \<open>fs0\<close> and the counter \<open>n0\<close>, after the effects \<open>tr0\<close> of the phases before it; let the
  progress store accept the update of \<open>ph\<close>, let the prompt of \<open>ph\<close> be built, and let the LLM
  call that \<open>generatePhase\<close> then makes with this prompt (\<open>generateUIWithGoogle\<close> for
  styling, \<open>callLLM\<close> for the others) throw. Then

  \<^item> the failure is logged and the loop goes on: the effects of the run are those of the
    phases before \<open>ph\<close>, the update, the call and the logged failure of \<open>ph\<close>, and then the
    effects of running every later phase from the unchanged files \<open>fs0\<close> and counter \<open>n0\<close>;
  \<^item> the accumulated file list at the end of the loop, and with it the file list of the
    result, holds no file tagged \<open>ph\<close>;
  \<^item> the "generating" update of all six phases is sent, in order;
  \<^item> the LLM call of a later phase is made when the progress store accepts its update and
    every path in the accumulated files converts to a string (the prompt of a phase lists
    the paths of the earlier files, and fails to build on a path that does not convert).
\<close>

theorem failed_phase_contributes_no_files:
  assumes split: "phases = before @ (ph, d) # after"
    and reached: "runPhases env request before [] 0 = (fs0, n0, tr0)"
    and accepted: "progress_fetch env (phase_update (ph, d) n0) = None"
    and prompt: "buildPhasePrompt request ph fs0 = Inr prompt"
    and throws: "if includes_str ph ''ui'' \<or> ph = ''styling''
                 then generateUIWithGoogle env ''gemini-2.0-pro-exp'' prompt = Inl e
                 else callLLM env prompt (pickLLMForJTBD (req_jtbds request)) = Inl e"
  shows "(\<exists>fs n tr rest.
            runPhases env request after fs0 n0 = (fs, n, tr)
          \<and> runPhases env request phases [] 0 =
              (fs, n, tr0 @ Posted (phase_update (ph, d) n0) # LLMCalled ph # ErrorLogged ph # tr)
          \<and> snd (generateApp env request agentId) =
              tr0 @ Posted (phase_update (ph, d) n0) # LLMCalled ph # ErrorLogged ph # tr @ rest)
       \<and> (\<forall>f \<in> set (fst (runPhases env request phases [] 0)). phase f \<noteq> ph)
       \<and> (\<forall>res. fst (generateApp env request agentId) = Inr res
              \<longrightarrow> (\<forall>f \<in> set (files res). phase f \<noteq> ph))
       \<and> map pu_phase (filter (\<lambda>u. status u = ''generating'')
                        (posted (snd (generateApp env request agentId))))
           = [''planning'', ''foundation'', ''core'', ''styling'', ''integration'', ''optimization'']
       \<and> (\<forall>q \<in> fst ` set after.
             (\<forall>u. pu_phase u = q \<longrightarrow> progress_fetch env u = None)
             \<and> (\<forall>f \<in> set (fst (runPhases env request phases [] 0)). stringifiable (path f))
               \<longrightarrow> LLMCalled q \<in> set (snd (generateApp env request agentId)))"
proof -
  obtain fs n tr where after: "runPhases env request after fs0 n0 = (fs, n, tr)"
    by (cases "runPhases env request after fs0 n0") auto
  have g: "generatePhase env request ph fs0 = (Inl e, [LLMCalled ph])"
    by (rule generatePhase_call_throws [OF prompt throws])
  have here: "runPhases env request ((ph, d) # after) fs0 n0 =
                (fs, n, Posted (phase_update (ph, d) n0) # LLMCalled ph # ErrorLogged ph # tr)"
    using accepted g after by (simp add: Let_def)
  have r: "runPhases env request phases [] 0 =
             (fs, n, tr0 @ Posted (phase_update (ph, d) n0) # LLMCalled ph # ErrorLogged ph # tr)"
    using runPhases_append [OF reached here] by (simp add: split)
  obtain rest where t: "snd (generateApp env request agentId) =
        (tr0 @ Posted (phase_update (ph, d) n0) # LLMCalled ph # ErrorLogged ph # tr) @ rest"
    and gen: "filter (\<lambda>u. status u = ''generating'') (posted rest) = []"
    using generateApp_trace_prefix [OF r] by blast
  have 0: "\<exists>fs n tr rest.
            runPhases env request after fs0 n0 = (fs, n, tr)
          \<and> runPhases env request phases [] 0 =
              (fs, n, tr0 @ Posted (phase_update (ph, d) n0) # LLMCalled ph # ErrorLogged ph # tr)
          \<and> snd (generateApp env request agentId) =
              tr0 @ Posted (phase_update (ph, d) n0) # LLMCalled ph # ErrorLogged ph # tr @ rest"
    using after r t by auto
  from distinct_phase_names have names: "ph \<notin> fst ` set before" "ph \<notin> fst ` set after"
    unfolding split by auto
  have 1: "\<forall>f \<in> set fs. phase f \<noteq> ph"
  proof
    fix f assume "f \<in> set fs"
    from runPhases_file_tags [OF after this]
    consider "f \<in> set fs0" | "phase f \<in> fst ` set after" by blast
    then show "phase f \<noteq> ph"
    proof cases
      case 1
      from runPhases_file_tags [OF reached 1] have "phase f \<in> fst ` set before" by simp
      with names(1) show ?thesis by auto
    next
      case 2
      with names(2) show ?thesis by auto
    qed
  qed
  have 2: "\<forall>res. fst (generateApp env request agentId) = Inr res
              \<longrightarrow> (\<forall>f \<in> set (files res). phase f \<noteq> ph)"
    using generateApp_result_files [OF r] 1 by blast
  have "filter (\<lambda>u. status u = ''generating'')
          (posted (tr0 @ Posted (phase_update (ph, d) n0) # LLMCalled ph # ErrorLogged ph # tr))
        = posted (tr0 @ Posted (phase_update (ph, d) n0) # LLMCalled ph # ErrorLogged ph # tr)"
    using runPhases_posted_status [OF r] by (auto simp: filter_id_conv)
  with t gen have "map pu_phase (filter (\<lambda>u. status u = ''generating'')
                        (posted (snd (generateApp env request agentId)))) = map fst phases"
    using runPhases_posted_phases [OF r] by (simp add: posted_append)
  then have 3: "map pu_phase (filter (\<lambda>u. status u = ''generating'')
                        (posted (snd (generateApp env request agentId))))
           = [''planning'', ''foundation'', ''core'', ''styling'', ''integration'', ''optimization'']"
    by (simp add: phases_def)
  have 4: "\<forall>q \<in> fst ` set after.
             (\<forall>u. pu_phase u = q \<longrightarrow> progress_fetch env u = None)
             \<and> (\<forall>f \<in> set fs. stringifiable (path f))
               \<longrightarrow> LLMCalled q \<in> set (snd (generateApp env request agentId))"
  proof (intro ballI impI)
    fix q assume q: "q \<in> fst ` set after"
      and h: "(\<forall>u. pu_phase u = q \<longrightarrow> progress_fetch env u = None)
              \<and> (\<forall>f \<in> set fs. stringifiable (path f))"
    from runPhases_llm_called [OF after q h [THEN conjunct1] h [THEN conjunct2]]
    show "LLMCalled q \<in> set (snd (generateApp env request agentId))"
      by (simp add: t)
  qed
  from 0 1 2 3 4 r show ?thesis by simp
qed

lemma buildPhasePrompt_phase:
  "buildPhasePrompt request ph prev = Inr prompt \<Longrightarrow> prompt_phase prompt = ph"
  by (auto simp: buildPhasePrompt_def split: if_splits)

lemma notin_imageI: "\<forall>x \<in> A. f x \<noteq> c \<Longrightarrow> c \<notin> f ` A"
  by blast

text \<open>
  The theorem at the core phase of the example run: the gateway fails the call of the core
  phase, the files of the planning and the foundation phase are kept, and the integration
  phase gets its LLM call.
\<close>

theorem failed_phase_contributes_no_files_witness:
  "phases = take 2 phases @ (''core'', ''Create main components and business logic'') # drop 3 phases
   \<and> progress_fetch example_env = (\<lambda>u. None)
   \<and> (\<exists>prompt.
         buildPhasePrompt example_request ''core''
           (fst (runPhases example_env example_request (take 2 phases) [] 0)) = Inr prompt
       \<and> callLLM example_env prompt (pickLLMForJTBD (req_jtbds example_request)) =
           Inl (Error ''LLM call failed: 500 upstream''))
   \<and> ''core'' \<notin> phase ` set (fst (runPhases example_env example_request phases [] 0))
   \<and> map phase (fst (runPhases example_env example_request phases [] 0))
       = [''planning'', ''foundation'', ''integration'', ''optimization'']
   \<and> LLMCalled ''integration'' \<in> set (snd (generateApp example_env example_request ''agent-1''))"
proof -
  let ?before = "take 2 phases"
  let ?after = "drop 3 phases"
  let ?d = "''Create main components and business logic''"
  let ?r0 = "runPhases example_env example_request ?before [] 0"
  let ?e = "Error ''LLM call failed: 500 upstream''"
  have a: "phases = ?before @ (''core'', ?d) # ?after"
    by (simp add: phases_def)
  have b: "?r0 = (fst ?r0, fst (snd ?r0), snd (snd ?r0))"
    by simp
  have p: "progress_fetch example_env = (\<lambda>u. None)"
    by (simp add: example_env_def)
  then have c: "progress_fetch example_env (phase_update (''core'', ?d) (fst (snd ?r0))) = None"
    by simp
  have "\<exists>prompt. buildPhasePrompt example_request ''core'' (fst ?r0) = Inr prompt"
    by (simp add: run_example)
  then obtain prompt where d: "buildPhasePrompt example_request ''core'' (fst ?r0) = Inr prompt"
    by (rule exE)
  from buildPhasePrompt_phase [OF d]
  have call: "callLLM example_env prompt (pickLLMForJTBD (req_jtbds example_request)) = Inl ?e"
    by (simp add: example_env_def)
  then have e: "if includes_str ''core'' ''ui'' \<or> ''core'' = ''styling''
         then generateUIWithGoogle example_env ''gemini-2.0-pro-exp'' prompt = Inl ?e
         else callLLM example_env prompt (pickLLMForJTBD (req_jtbds example_request)) = Inl ?e"
    by simp
  note inst = failed_phase_contributes_no_files
                [of ?before "''core''" ?d ?after example_env example_request
                    "fst ?r0" "fst (snd ?r0)" "snd (snd ?r0)" prompt ?e "''agent-1''",
                 OF a b c d e]
  have q: "''integration'' \<in> fst ` set ?after"
    by (simp add: phases_def)
  have h: "(\<forall>u. pu_phase u = ''integration'' \<longrightarrow> progress_fetch example_env u = None)
           \<and> (\<forall>f \<in> set (fst (runPhases example_env example_request phases [] 0)).
                 stringifiable (path f))"
    by (simp add: run_example)
  have w1: "\<exists>prompt.
         buildPhasePrompt example_request ''core'' (fst ?r0) = Inr prompt
       \<and> callLLM example_env prompt (pickLLMForJTBD (req_jtbds example_request)) = Inl ?e"
    using d call by (intro exI conjI)
  have w2: "''core'' \<notin> phase ` set (fst (runPhases example_env example_request phases [] 0))"
    by (rule notin_imageI [of "set (fst (runPhases example_env example_request phases [] 0))"
                              phase "''core''", OF inst [THEN conjunct2, THEN conjunct1]])
  have w3: "map phase (fst (runPhases example_env example_request phases [] 0))
       = [''planning'', ''foundation'', ''integration'', ''optimization'']"
    by (simp add: run_example)
  have w4: "LLMCalled ''integration'' \<in> set (snd (generateApp example_env example_request ''agent-1''))"
    by (rule inst [THEN conjunct2, THEN conjunct2, THEN conjunct2, THEN conjunct2,
                   THEN bspec, OF q, THEN mp, OF h])
  show ?thesis
    by (intro conjI a p w1 w2 w3 w4)
qed

text \<open>
  A path that does not convert to a string stops the later phases before their LLM call.
  When the gateway answers the foundation phase with a file whose path is the object
  \<^verbatim>\<open>{"toString": 0}\<close>, \<open>parseCodeResponse\<close> copies it, and every later prompt fails to build:
  the four later phases are logged as failed, none of them calls the LLM, and the counter
  stays at two.
\<close>

lemma object_path_stops_later_calls:
  "snd (snd (runPhases object_path_env example_request phases [] 0)) =
     [Posted \<lparr>pu_phase = ''planning'', progress = 0, status = ''generating'', result = None\<rparr>,
      LLMCalled ''planning'',
      Posted \<lparr>pu_phase = ''foundation'', progress = 50 / 3, status = ''generating'', result = None\<rparr>,
      LLMCalled ''foundation'',
      Posted \<lparr>pu_phase = ''core'', progress = 100 / 3, status = ''generating'', result = None\<rparr>,
      ErrorLogged ''core'',
      Posted \<lparr>pu_phase = ''styling'', progress = 100 / 3, status = ''generating'', result = None\<rparr>,
      ErrorLogged ''styling'',
      Posted \<lparr>pu_phase = ''integration'', progress = 100 / 3, status = ''generating'', result = None\<rparr>,
      ErrorLogged ''integration'',
      Posted \<lparr>pu_phase = ''optimization'', progress = 100 / 3, status = ''generating'', result = None\<rparr>,
      ErrorLogged ''optimization'']"
  by (simp add: run_example object_path_env_def)

subsection \<open>Progress values\<close>

lemma trace_split:
  assumes "xs @ ys = pre @ Posted u # post"
    and "\<forall>v. Posted v \<in> set ys \<longrightarrow> status v \<noteq> status u"
  shows "\<exists>post1. xs = pre @ Posted u # post1"
proof -
  from assms(1) consider us where "xs = pre @ us" "us @ ys = Posted u # post"
    | us where "xs @ us = pre" "ys = us @ Posted u # post"
    by (auto simp: append_eq_append_conv2)
  then show ?thesis
  proof cases
    case 1
    show ?thesis
    proof (cases us)
      case Nil
      with 1(2) assms(2) show ?thesis by auto
    next
      case (Cons a us')
      with 1 show ?thesis by auto
    qed
  next
    case 2
    with assms(2) show ?thesis by auto
  qed
qed

lemma length_phases: "length phases = 6"
  by (simp add: phases_def)

text \<open>
  Claim C9. In every run of \<open>generateApp\<close>, whether it returns or raises, every progress
  value sent to the progress store lies in \<open>[0, 100]\<close> and the values are sent in
  non-decreasing order. The update sent before a phase carries \<open>(c / 6) \<times> 100\<close>, where \<open>c\<close>
  is the number of earlier phases that completed: the phases entered so far (one update
  each) minus those whose failure was logged.
\<close>

theorem progress_bounded_and_monotone:
  fixes env :: Env and request :: CodeGenerationRequest and agentId :: string
  defines "tr \<equiv> snd (generateApp env request agentId)"
  shows "(\<forall>u \<in> set (posted tr). 0 \<le> progress u \<and> progress u \<le> 100)
       \<and> sorted (map progress (posted tr))
       \<and> (\<forall>pre u post. tr = pre @ Posted u # post \<and> status u = ''generating''
            \<longrightarrow> progress u =
                  (of_nat (length (posted pre)) - of_nat (length (failures pre))) / 6 * 100)"
proof -
  obtain fs n tr1 where r: "runPhases env request phases [] 0 = (fs, n, tr1)"
    by (cases "runPhases env request phases [] 0") auto
  have bounds: "\<forall>u \<in> set (posted tr1). 0 \<le> progress u \<and> progress u \<le> 100"
    using runPhases_progress_bounds [OF r] by (simp add: length_phases)
  have sorted1: "sorted (map progress (posted tr1))"
    by (rule runPhases_progress_sorted [OF r])
  have formula1: "progress u =
        (of_nat (length (posted pre)) - of_nat (length (failures pre))) / 6 * 100"
    if "tr1 = pre @ Posted u # post" for pre u post
    using runPhases_progress_formula [OF r that] by (simp add: length_phases)
  have shape: "\<exists>rest. tr = tr1 @ rest
      \<and> (posted rest = [] \<or> (\<exists>res. posted rest =
            [\<lparr>pu_phase = ''complete'', progress = 100, status = ''completed'',
              result = Some res\<rparr>]))"
  proof (cases rule: generateApp_cases [of env request agentId])
    case (store_failed fs' n' tr1' e tr2)
    with r put_assets_posted [of "AGENT_ASSETS env" agentId executeBuild_assets]
    show ?thesis by (auto simp: tr_def)
  next
    case (post_failed fs' n' tr1' tr2 res e)
    with r put_assets_posted [of "AGENT_ASSETS env" agentId executeBuild_assets]
    show ?thesis by (auto simp: tr_def posted_append)
  next
    case (completed fs' n' tr1' tr2 res)
    with r put_assets_posted [of "AGENT_ASSETS env" agentId executeBuild_assets]
    show ?thesis by (auto simp: tr_def posted_append)
  qed
  then obtain rest where t: "tr = tr1 @ rest"
    and rest: "posted rest = [] \<or> (\<exists>res. posted rest =
            [\<lparr>pu_phase = ''complete'', progress = 100, status = ''completed'',
              result = Some res\<rparr>])"
    by blast
  have a: "\<forall>u \<in> set (posted tr). 0 \<le> progress u \<and> progress u \<le> 100"
    using bounds rest by (auto simp: t posted_append)
  have b: "sorted (map progress (posted tr))"
    using bounds sorted1 rest by (auto simp: t posted_append sorted_append)
  have c: "progress u = (of_nat (length (posted pre)) - of_nat (length (failures pre))) / 6 * 100"
    if split: "tr = pre @ Posted u # post" and gen: "status u = ''generating''" for pre u post
  proof -
    have "\<forall>v. Posted v \<in> set rest \<longrightarrow> status v \<noteq> status u"
      using rest gen by (auto simp: posted_set [symmetric])
    with split t obtain post1 where "tr1 = pre @ Posted u # post1"
      using trace_split [of tr1 rest pre u post] by auto
    then show ?thesis by (rule formula1)
  qed
  from a b c show ?thesis by blast
qed

text \<open>
  The theorem at the example run: the update of the styling phase comes after three
  updates and one logged failure, and carries \<open>(2 / 6) \<times> 100\<close>.
\<close>

theorem progress_bounded_and_monotone_witness:
  "take 7 (snd (generateApp example_env example_request ''agent-1'')) =
     [Posted \<lparr>pu_phase = ''planning'', progress = 0, status = ''generating'', result = None\<rparr>,
      LLMCalled ''planning'',
      Posted \<lparr>pu_phase = ''foundation'', progress = 50 / 3, status = ''generating'', result = None\<rparr>,
      LLMCalled ''foundation'',
      Posted \<lparr>pu_phase = ''core'', progress = 100 / 3, status = ''generating'', result = None\<rparr>,
      LLMCalled ''core'',
      ErrorLogged ''core'']
   \<and> snd (generateApp example_env example_request ''agent-1'') ! 7 =
       Posted \<lparr>pu_phase = ''styling'', progress = (3 - 1) / 6 * 100, status = ''generating'',
               result = None\<rparr>
   \<and> map progress (posted (snd (generateApp example_env example_request ''agent-1''))) =
       [0, 50 / 3, 100 / 3, 100 / 3, 100 / 3, 50, 100]
   \<and> sorted (map progress (posted (snd (generateApp example_env example_request ''agent-1''))))"
proof -
  let ?tr = "snd (generateApp example_env example_request ''agent-1'')"
  let ?u = "\<lparr>pu_phase = ''styling'', progress = 100 / 3, status = ''generating'', result = None\<rparr>"
  have pre: "take 7 ?tr =
     [Posted \<lparr>pu_phase = ''planning'', progress = 0, status = ''generating'', result = None\<rparr>,
      LLMCalled ''planning'',
      Posted \<lparr>pu_phase = ''foundation'', progress = 50 / 3, status = ''generating'', result = None\<rparr>,
      LLMCalled ''foundation'',
      Posted \<lparr>pu_phase = ''core'', progress = 100 / 3, status = ''generating'', result = None\<rparr>,
      LLMCalled ''core'',
      ErrorLogged ''core'']"
    by (simp add: run_example)
  have nth: "?tr ! 7 = Posted ?u"
    by (simp add: run_example)
  have len: "7 < length ?tr"
    by (simp add: run_example)
  have ps: "map progress (posted ?tr) = [0, 50 / 3, 100 / 3, 100 / 3, 100 / 3, 50, 100]"
    by (simp add: run_example)
  from id_take_nth_drop [OF len] nth
  have split: "?tr = take 7 ?tr @ Posted ?u # drop (Suc 7) ?tr" by simp
  have gen: "status ?u = ''generating''" by simp
  from progress_bounded_and_monotone [of example_env example_request "''agent-1''"]
  have s: "sorted (map progress (posted ?tr))"
    and f: "\<And>pre u post. ?tr = pre @ Posted u # post \<and> status u = ''generating''
            \<Longrightarrow> progress u =
                  (of_nat (length (posted pre)) - of_nat (length (failures pre))) / 6 * 100"
    by blast+
  from f [of "take 7 ?tr" ?u "drop (Suc 7) ?tr"] split gen
  have "progress ?u = (of_nat (length (posted (take 7 ?tr))) - of_nat (length (failures (take 7 ?tr)))) / 6 * 100"
    by blast
  then have "progress ?u = (3 - 1) / 6 * 100"
    by (simp add: pre)
  with pre nth ps s show ?thesis by simp
qed

section \<open>Template Matcher\<close>

subsection \<open>The capability tables\<close>

text \<open>
  A tag that names a member of \<^verbatim>\<open>Object.prototype\<close> makes the capability test throw; any
  other tag is looked up in the table, with \<open>[]\<close> for a missing key.
\<close>

lemma required_capabilities_throws:
  "required_capabilities table key = Inl e \<longleftrightarrow>
     map_of table key = None \<and> key \<in> set object_prototype_keys
     \<and> e = TypeError ''requiredCapabilities.some is not a function''"
  by (auto simp: required_capabilities_def split: option.splits)

lemma inputMap_own_keys:
  assumes "key \<in> set object_prototype_keys"
  shows "map_of inputMap key = None"
proof -
  have "list_all (\<lambda>k. map_of inputMap k = None) object_prototype_keys"
    by (simp add: object_prototype_keys_def inputMap_def)
  with assms show ?thesis by (simp add: list_all_iff)
qed

lemma outputMap_own_keys:
  assumes "key \<in> set object_prototype_keys"
  shows "map_of outputMap key = None"
proof -
  have "list_all (\<lambda>k. map_of outputMap k = None) object_prototype_keys"
    by (simp add: object_prototype_keys_def outputMap_def)
  with assms show ?thesis by (simp add: list_all_iff)
qed

lemma templateSupportsInput_throws:
  "isl (templateSupportsInput t inp) \<longleftrightarrow> toLowerCase inp \<in> set object_prototype_keys"
proof (cases "toLowerCase inp \<in> set object_prototype_keys")
  case True
  with inputMap_own_keys [OF True] show ?thesis
    by (simp add: templateSupportsInput_def required_capabilities_def)
next
  case False
  then show ?thesis
    by (simp add: templateSupportsInput_def required_capabilities_def split: option.splits)
qed

lemma templateSupportsOutput_throws:
  "isl (templateSupportsOutput t out) \<longleftrightarrow> toLowerCase out \<in> set object_prototype_keys"
proof (cases "toLowerCase out \<in> set object_prototype_keys")
  case True
  with outputMap_own_keys [OF True] show ?thesis
    by (simp add: templateSupportsOutput_def required_capabilities_def)
next
  case False
  then show ?thesis
    by (simp add: templateSupportsOutput_def required_capabilities_def split: option.splits)
qed

lemma filter_throwing_Inr:
  "filter_throwing p xs = Inr ys \<Longrightarrow> filter (\<lambda>x. p x = Inr True) xs = ys"
  by (induction xs arbitrary: ys) (auto split: sum.splits if_splits)

lemma filter_throwing_total:
  "\<forall>x \<in> set xs. \<not> isl (p x) \<Longrightarrow> \<exists>ys. filter_throwing p xs = Inr ys"
proof (induction xs)
  case Nil
  show ?case by simp
next
  case (Cons x xs)
  then obtain ys where "filter_throwing p xs = Inr ys" by auto
  moreover from Cons.prems obtain b where "p x = Inr b" by (cases "p x") auto
  ultimately show ?case by simp
qed

lemma filter_throwing_throws:
  "filter_throwing p xs = Inl e \<Longrightarrow> \<exists>x \<in> set xs. p x = Inl e"
  by (induction xs) (auto split: sum.splits)

subsection \<open>The confidence score\<close>

lemma keywordScore_range: "0 \<le> keywordScore t j \<and> keywordScore t j \<le> 30"
  by (simp add: keywordScore_def)

lemma favoriteScore_range: "0 \<le> favoriteScore t fav \<and> favoriteScore t fav \<le> 10"
  by (simp add: favoriteScore_def Let_def split: option.splits)

lemma js_ratio_filter:
  assumes "xs \<noteq> []"
  shows "\<exists>q. js_ratio (length (filter P xs)) (length xs) = Num q \<and> 0 \<le> q \<and> q \<le> 1"
proof -
  have "length (filter P xs) \<le> length xs" by simp
  then have "(of_nat (length (filter P xs)) :: rat) \<le> of_nat (length xs)"
    by (simp only: of_nat_le_iff)
  moreover from assms have "(0::rat) < of_nat (length xs)" by simp
  ultimately have "(of_nat (length (filter P xs)) :: rat) / of_nat (length xs) \<le> 1"
    by (simp add: divide_le_eq)
  with assms show ?thesis by (simp add: js_ratio_def)
qed

text \<open>The value \<open>calculateTemplateMatch\<close> returns, when neither filter threw.\<close>

lemma calculateTemplateMatch_Inr:
  assumes "calculateTemplateMatch t r = Inr c"
  shows "c = js_min (js_div_const
           (js_add (js_add (js_add (js_add (js_add
              (js_add (Num 0) (Num (keywordScore t (toLowerCase (jtbds r)))))
              (js_mul (js_ratio (length (filter (\<lambda>x. templateSupportsInput t x = Inr True)
                                                 (input_sources r)))
                                (length (input_sources r))) (Num 20)))
              (js_mul (js_ratio (length (filter (\<lambda>x. templateSupportsOutput t x = Inr True)
                                                 (outputs r)))
                                (length (outputs r))) (Num 20)))
              (js_mul (js_ratio (length (filter (templateSupportsAPI t) (api_keys_required r)))
                                (length (api_keys_required r))) (Num 15)))
              (Num (favoriteScore t (favorite_app (visual_style r)))))
              (Num (if assessJTBDComplexity r = complexity t then 5 else 0)))
           maxScore) (Num 1)"
proof -
  from assms obtain ins outs where
    i: "filter_throwing (templateSupportsInput t) (input_sources r) = Inr ins"
    and out: "filter_throwing (templateSupportsOutput t) (outputs r) = Inr outs"
    by (auto simp: calculateTemplateMatch_def Let_def split: sum.splits)
  have c: "c = js_min (js_div_const
           (js_add (js_add (js_add (js_add (js_add
              (js_add (Num 0) (Num (keywordScore t (toLowerCase (jtbds r)))))
              (js_mul (js_ratio (length ins) (length (input_sources r))) (Num 20)))
              (js_mul (js_ratio (length outs) (length (outputs r))) (Num 20)))
              (js_mul (js_ratio (length (filter (templateSupportsAPI t) (api_keys_required r)))
                                (length (api_keys_required r))) (Num 15)))
              (Num (favoriteScore t (favorite_app (visual_style r)))))
              (Num (if assessJTBDComplexity r = complexity t then 5 else 0)))
           maxScore) (Num 1)"
    using assms unfolding calculateTemplateMatch_def Let_def i out by simp
  show ?thesis
    unfolding c filter_throwing_Inr [OF i] filter_throwing_Inr [OF out]
    by (rule refl)
qed

text \<open>The score is \<open>NaN\<close> exactly when one of the three tag lists is empty.\<close>

lemma calculateTemplateMatch_NaN_iff:
  assumes "calculateTemplateMatch t r = Inr c"
  shows "c = NaN \<longleftrightarrow> input_sources r = [] \<or> outputs r = [] \<or> api_keys_required r = []"
proof (cases "input_sources r = [] \<or> outputs r = [] \<or> api_keys_required r = []")
  case True
  then show ?thesis
    unfolding calculateTemplateMatch_Inr [OF assms] by (auto simp: js_ratio_def)
next
  case False
  then have ne: "input_sources r \<noteq> []" "outputs r \<noteq> []" "api_keys_required r \<noteq> []"
    by simp_all
  obtain a where a:
    "js_ratio (length (filter (\<lambda>x. templateSupportsInput t x = Inr True) (input_sources r)))
              (length (input_sources r)) = Num a"
    using js_ratio_filter [OF ne(1)] by blast
  obtain b where b:
    "js_ratio (length (filter (\<lambda>x. templateSupportsOutput t x = Inr True) (outputs r)))
              (length (outputs r)) = Num b"
    using js_ratio_filter [OF ne(2)] by blast
  obtain d where d:
    "js_ratio (length (filter (templateSupportsAPI t) (api_keys_required r)))
              (length (api_keys_required r)) = Num d"
    using js_ratio_filter [OF ne(3)] by blast
  from False a b d show ?thesis
    unfolding calculateTemplateMatch_Inr [OF assms] by simp
qed

text \<open>With three non-empty tag lists the score is a number in \<open>[0, 1]\<close>.\<close>

lemma calculateTemplateMatch_range:
  assumes "input_sources r \<noteq> []" and "outputs r \<noteq> []" and "api_keys_required r \<noteq> []"
    and "calculateTemplateMatch t r = Inr c"
  shows "\<exists>q. c = Num q \<and> 0 \<le> q \<and> q \<le> 1"
proof -
  obtain a where a: "js_ratio (length (filter (\<lambda>x. templateSupportsInput t x = Inr True)
                                        (input_sources r))) (length (input_sources r)) = Num a"
    "0 \<le> a"
    using js_ratio_filter [OF assms(1)] by blast
  obtain b where b: "js_ratio (length (filter (\<lambda>x. templateSupportsOutput t x = Inr True)
                                        (outputs r))) (length (outputs r)) = Num b"
    "0 \<le> b"
    using js_ratio_filter [OF assms(2)] by blast
  obtain d where d: "js_ratio (length (filter (templateSupportsAPI t) (api_keys_required r)))
                              (length (api_keys_required r)) = Num d" "0 \<le> d"
    using js_ratio_filter [OF assms(3)] by blast
  have k: "0 \<le> keywordScore t (toLowerCase (jtbds r))"
    using keywordScore_range by blast
  have f: "0 \<le> favoriteScore t (favorite_app (visual_style r))"
    using favoriteScore_range by blast
  show ?thesis
    unfolding calculateTemplateMatch_Inr [OF assms(4)]
    using a b d k f by (simp add: maxScore_def min_def)
qed

text \<open>
  Scoring throws exactly on a tag that names a member of \<^verbatim>\<open>Object.prototype\<close>: without
  such a tag among the input sources and the outputs, every template gets its match.
\<close>

lemma score_template_total:
  assumes "\<forall>tag \<in> set (input_sources r) \<union> set (outputs r).
             toLowerCase tag \<notin> set object_prototype_keys"
  shows "\<exists>m. score_template r t = Inr m"
proof -
  from assms obtain ins where i: "filter_throwing (templateSupportsInput t) (input_sources r) = Inr ins"
    using filter_throwing_total [of "input_sources r" "templateSupportsInput t"]
    by (auto simp: templateSupportsInput_throws)
  from assms obtain outs where
    outs: "filter_throwing (templateSupportsOutput t) (outputs r) = Inr outs"
    using filter_throwing_total [of "outputs r" "templateSupportsOutput t"]
    by (auto simp: templateSupportsOutput_throws)
  from i outs show ?thesis
    by (simp add: score_template_def calculateTemplateMatch_def generateMatchReasoning_def Let_def)
qed

lemma map_throwing_elem:
  "map_throwing f xs = Inr ys \<Longrightarrow> y \<in> set ys \<Longrightarrow> \<exists>x \<in> set xs. f x = Inr y"
  by (induction xs arbitrary: ys) (auto split: sum.splits)

lemma map_throwing_total:
  "\<forall>x \<in> set xs. \<exists>y. f x = Inr y \<Longrightarrow> \<exists>ys. map_throwing f xs = Inr ys"
proof (induction xs)
  case Nil
  show ?case by simp
next
  case (Cons x xs)
  then obtain ys where "map_throwing f xs = Inr ys" by auto
  moreover from Cons.prems obtain y where "f x = Inr y" by auto
  ultimately show ?case by simp
qed

subsection \<open>The sort\<close>

lemma js_gt_compare:
  "js_gt (compare_matches x y) (Num 0) \<longleftrightarrow> js_gt (confidence y) (confidence x)"
  by (cases "confidence x"; cases "confidence y") (simp_all add: compare_matches_def)

lemma mset_insert_by: "mset (insert_by cmp x ys) = add_mset x (mset ys)"
  by (induction ys) auto

lemma mset_js_sort: "mset (js_sort cmp xs) = mset xs"
  by (induction xs) (auto simp: js_sort_def mset_insert_by)

lemma set_js_sort: "set (js_sort cmp xs) = set xs"
  using mset_js_sort [of cmp xs] by (metis set_mset_mset)

lemma js_sort_Cons: "js_sort cmp (x # xs) = insert_by cmp x (js_sort cmp xs)"
  by (simp add: js_sort_def)

lemma js_sort_Nil: "js_sort cmp [] = []"
  by (simp add: js_sort_def)

text \<open>Ties keep their order: an element only moves behind strictly greater ones.\<close>

lemma filter_insert_by:
  "filter (\<lambda>m. confidence m = c) (insert_by compare_matches x ys) =
     (if confidence x = c then x # filter (\<lambda>m. confidence m = c) ys
      else filter (\<lambda>m. confidence m = c) ys)"
proof (induction ys)
  case Nil
  show ?case by simp
next
  case (Cons y ys)
  have "confidence y \<noteq> confidence x" if "js_gt (confidence y) (confidence x)"
    using that by (cases "confidence x"; cases "confidence y") auto
  with Cons show ?case
    by (auto simp: js_gt_compare)
qed

lemma js_sort_stable:
  "filter (\<lambda>m. confidence m = c) (js_sort compare_matches xs) = filter (\<lambda>m. confidence m = c) xs"
  by (induction xs) (simp_all add: js_sort_Nil js_sort_Cons filter_insert_by)

text \<open>Descending order: no element is followed by a strictly greater one.\<close>

lemma sorted_insert_by:
  assumes "sorted_wrt (\<lambda>a b. \<not> js_gt (confidence b) (confidence a)) ys"
    and "(\<forall>m \<in> set (x # ys). confidence m = NaN) \<or> (\<forall>m \<in> set (x # ys). confidence m \<noteq> NaN)"
  shows "sorted_wrt (\<lambda>a b. \<not> js_gt (confidence b) (confidence a)) (insert_by compare_matches x ys)"
  using assms
proof (induction ys)
  case Nil
  show ?case by simp
next
  case (Cons y ys)
  show ?case
  proof (cases "js_gt (confidence y) (confidence x)")
    case True
    from Cons.prems have ih: "sorted_wrt (\<lambda>a b. \<not> js_gt (confidence b) (confidence a))
                                (insert_by compare_matches x ys)"
      by (intro Cons.IH) auto
    have "\<not> js_gt (confidence x) (confidence y)"
      using True by (cases "confidence x"; cases "confidence y") auto
    moreover have "set (insert_by compare_matches x ys) = insert x (set ys)"
      using mset_insert_by [of compare_matches x ys] by (metis set_mset_mset set_mset_add_mset_insert)
    ultimately show ?thesis
      using True Cons.prems(1) ih by (auto simp: js_gt_compare)
  next
    case False
    have "\<not> js_gt (confidence z) (confidence x)" if "z \<in> set ys" for z
    proof -
      from Cons.prems(1) that have zy: "\<not> js_gt (confidence z) (confidence y)" by auto
      from Cons.prems(2) that consider "confidence x = NaN"
        | a b c where "confidence x = Num a" "confidence y = Num b" "confidence z = Num c"
        by (cases "confidence x"; cases "confidence y"; cases "confidence z") auto
      then show ?thesis
      proof cases
        case 1
        then show ?thesis by simp
      next
        case 2
        with zy False show ?thesis by auto
      qed
    qed
    with False Cons.prems(1) show ?thesis
      by (auto simp: js_gt_compare)
  qed
qed

lemma js_sort_sorted:
  assumes "(\<forall>m \<in> set xs. confidence m = NaN) \<or> (\<forall>m \<in> set xs. confidence m \<noteq> NaN)"
  shows "sorted_wrt (\<lambda>a b. \<not> js_gt (confidence b) (confidence a)) (js_sort compare_matches xs)"
  using assms
proof (induction xs)
  case Nil
  show ?case by (simp add: js_sort_Nil)
next
  case (Cons x xs)
  from Cons.prems have "sorted_wrt (\<lambda>a b. \<not> js_gt (confidence b) (confidence a))
                           (js_sort compare_matches xs)"
    by (intro Cons.IH) auto
  moreover from Cons.prems
  have "(\<forall>m \<in> set (x # js_sort compare_matches xs). confidence m = NaN)
        \<or> (\<forall>m \<in> set (x # js_sort compare_matches xs). confidence m \<noteq> NaN)"
    by (simp add: set_js_sort)
  ultimately show ?case
    by (simp only: js_sort_Cons sorted_insert_by)
qed

lemma confidence_score_template:
  "score_template r t = Inr m \<Longrightarrow> calculateTemplateMatch t r = Inr (confidence m)"
  by (auto simp: score_template_def split: sum.splits)

lemma templateName_score_template:
  "score_template r t = Inr m \<Longrightarrow> templateName m = name t"
  by (auto simp: score_template_def split: sum.splits)

lemma scores_uniform:
  assumes "map_throwing (score_template r) ts = Inr ms"
  shows "(\<forall>m \<in> set ms. confidence m = NaN) \<or> (\<forall>m \<in> set ms. confidence m \<noteq> NaN)"
proof -
  have "\<forall>m \<in> set ms. \<exists>t. calculateTemplateMatch t r = Inr (confidence m)"
    using map_throwing_elem [OF assms] by (blast dest: confidence_score_template)
  then have "\<forall>m \<in> set ms. confidence m = NaN
               \<longleftrightarrow> input_sources r = [] \<or> outputs r = [] \<or> api_keys_required r = []"
    by (auto dest: calculateTemplateMatch_NaN_iff)
  then show ?thesis
    by (cases "input_sources r = [] \<or> outputs r = [] \<or> api_keys_required r = []") simp_all
qed

lemma ranked_matches_Inr:
  assumes "ranked_matches env r = Inr ms"
  obtains scored where
    "map_throwing (score_template r) (getAvailableTemplates env) = Inr scored"
    "ms = js_sort compare_matches scored"
  using assms by (auto simp: ranked_matches_def split: sum.splits)

lemma ranked_matches_sorted:
  assumes "ranked_matches env r = Inr ms"
  shows "sorted_wrt (\<lambda>a b. \<not> js_gt (confidence b) (confidence a)) ms"
proof -
  from assms obtain scored where
    s: "map_throwing (score_template r) (getAvailableTemplates env) = Inr scored"
    and m: "ms = js_sort compare_matches scored"
    by (rule ranked_matches_Inr)
  show ?thesis unfolding m by (rule js_sort_sorted) (rule scores_uniform [OF s])
qed

lemma ranked_matches_mset:
  assumes "ranked_matches env r = Inr ms"
    and "map_throwing (score_template r) (getAvailableTemplates env) = Inr scored"
  shows "mset ms = mset scored"
  using assms by (auto simp: ranked_matches_def mset_js_sort)

lemma ranked_matches_stable:
  assumes "ranked_matches env r = Inr ms"
    and "map_throwing (score_template r) (getAvailableTemplates env) = Inr scored"
  shows "filter (\<lambda>m. confidence m = c) ms = filter (\<lambda>m. confidence m = c) scored"
  using assms by (auto simp: ranked_matches_def js_sort_stable)

lemma ranked_matches_total:
  assumes "\<forall>tag \<in> set (input_sources r) \<union> set (outputs r).
             toLowerCase tag \<notin> set object_prototype_keys"
  shows "\<exists>ms. ranked_matches env r = Inr ms \<and> length ms = length (getAvailableTemplates env)"
proof -
  have "\<forall>t \<in> set (getAvailableTemplates env). \<exists>m. score_template r t = Inr m"
    using score_template_total [OF assms] by blast
  then obtain scored where
    s: "map_throwing (score_template r) (getAvailableTemplates env) = Inr scored"
    using map_throwing_total by blast
  then have "length scored = length (getAvailableTemplates env)"
    by (simp add: map_throwing_Inr_iff list_all2_lengthD)
  moreover have "length (js_sort compare_matches scored) = length scored"
    using mset_js_sort [of compare_matches scored] by (metis size_mset)
  ultimately show ?thesis using s by (simp add: ranked_matches_def)
qed

subsection \<open>The decision\<close>

text \<open>
  A throw of the scoring leaves \<open>selectTemplateForJTBD\<close>. When the scoring returns and the
  registry yields at least one template, the matches after the sort are a rearrangement of
  the scored templates in which no match is followed by a strictly better one, so the first
  one, \<open>bestMatch\<close>, is a highest-scoring template. If its score is \<open>\<ge> 0.7\<close> the result names
  it as \<open>selectedTemplate\<close> and carries the next matches, at most three, as alternatives;
  otherwise the result has \<open>fallbackGeneration\<close> true and carries the first three matches
  (all of them when there are fewer).
\<close>

lemma selectTemplateForJTBD_scoring_throws:
  "ranked_matches env r = Inl e \<Longrightarrow> selectTemplateForJTBD env r = Inl e"
  by (simp add: selectTemplateForJTBD_def)

lemma selectTemplateForJTBD_decision:
  assumes "getAvailableTemplates env \<noteq> []"
    and "\<forall>tag \<in> set (input_sources r) \<union> set (outputs r).
           toLowerCase tag \<notin> set object_prototype_keys"
  shows "\<exists>bestMatch others scored.
           ranked_matches env r = Inr (bestMatch # others)
         \<and> map_throwing (score_template r) (getAvailableTemplates env) = Inr scored
         \<and> mset (bestMatch # others) = mset scored
         \<and> sorted_wrt (\<lambda>a b. \<not> js_gt (confidence b) (confidence a)) (bestMatch # others)
         \<and> (js_ge (confidence bestMatch) (Num (7 / 10)) \<longrightarrow>
              (\<exists>res. selectTemplateForJTBD env r = Inr res
                 \<and> selectedTemplate res = Some (templateName bestMatch)
                 \<and> fallbackGeneration res = None
                 \<and> alternatives res = Some (take 3 others)))
         \<and> (\<not> js_ge (confidence bestMatch) (Num (7 / 10)) \<longrightarrow>
              (\<exists>res. selectTemplateForJTBD env r = Inr res
                 \<and> selectedTemplate res = None
                 \<and> fallbackGeneration res = Some True
                 \<and> alternatives res = Some (take 3 (bestMatch # others))))"
proof -
  from ranked_matches_total [OF assms(2), of env]
  obtain ms where rk0: "ranked_matches env r = Inr ms"
    and len: "length ms = length (getAvailableTemplates env)" by blast
  from len assms(1) have "ms \<noteq> []" by auto
  then obtain bestMatch others where ms: "ms = bestMatch # others"
    by (cases ms) auto
  from rk0 ms have rk: "ranked_matches env r = Inr (bestMatch # others)" by simp
  from rk obtain scored where
    sc: "map_throwing (score_template r) (getAvailableTemplates env) = Inr scored"
    by (rule ranked_matches_Inr)
  have m: "mset (bestMatch # others) = mset scored"
    by (rule ranked_matches_mset [OF rk sc])
  have s: "sorted_wrt (\<lambda>a b. \<not> js_gt (confidence b) (confidence a)) (bestMatch # others)"
    by (rule ranked_matches_sorted [OF rk])
  have hi: "\<exists>res. selectTemplateForJTBD env r = Inr res
                 \<and> selectedTemplate res = Some (templateName bestMatch)
                 \<and> fallbackGeneration res = None
                 \<and> alternatives res = Some (take 3 others)"
    if "js_ge (confidence bestMatch) (Num (7 / 10))"
    using that rk by (simp add: selectTemplateForJTBD_def Let_def slice_def)
  have lo: "\<exists>res. selectTemplateForJTBD env r = Inr res
                 \<and> selectedTemplate res = None
                 \<and> fallbackGeneration res = Some True
                 \<and> alternatives res = Some (take 3 (bestMatch # others))"
    if "\<not> js_ge (confidence bestMatch) (Num (7 / 10))"
    using that rk by (simp add: selectTemplateForJTBD_def Let_def slice_def)
  from rk sc m s hi lo show ?thesis by blast
qed

text \<open>The definitions a worked example of the matcher unfolds.\<close>

lemmas matcher_example =
  selectTemplateForJTBD_def ranked_matches_def score_template_def calculateTemplateMatch_def
  generateMatchReasoning_def keywordScore_def favoriteScore_def assessJTBDComplexity_def
  templateSupportsInput_def templateSupportsOutput_def templateSupportsAPI_def
  required_capabilities_def object_prototype_keys_def
  has_capability_def inputMap_def outputMap_def maxScore_def js_ratio_def js_sort_def
  compare_matches_def slice_def toLowerCase_def lower_char_def Let_def
  journal_requirements_def home_page_requirements_def constructor_requirements_def
  dashboard_requirements_def
  example_style_def

lemma example_registry:
  "getAvailableTemplates example_env = [journal_template, dashboard_template]"
  by (simp add: getAvailableTemplates_def path_join_def example_env_def suffix_def)

text \<open>
  At the example registry the journal requirements select \<^verbatim>\<open>journal-app\<close> (score 0.9) with
  \<^verbatim>\<open>dashboard-app\<close> as the alternative.
\<close>

lemma selectTemplateForJTBD_journal:
  "\<exists>res alts. selectTemplateForJTBD example_env journal_requirements = Inr res
         \<and> selectedTemplate res = Some ''journal-app'' \<and> fallbackGeneration res = None
         \<and> alternatives res = Some alts
         \<and> map (\<lambda>m. (templateName m, confidence m)) alts = [(''dashboard-app'', Num 0)]"
  by (simp add: example_registry matcher_example journal_template_def dashboard_template_def)

text \<open>
  The dashboard requirements put \<^verbatim>\<open>dashboard-app\<close>, the second template of the registry,
  first with the score 0.5, ahead of \<^verbatim>\<open>journal-app\<close> with 0.4; the best score is below the
  threshold, so the decision is the fallback, carrying both matches in rank order.
\<close>

lemma selectTemplateForJTBD_dashboard:
  "\<exists>res alts. selectTemplateForJTBD example_env dashboard_requirements = Inr res
         \<and> selectedTemplate res = None \<and> fallbackGeneration res = Some True
         \<and> alternatives res = Some alts
         \<and> map (\<lambda>m. (templateName m, confidence m)) alts =
               [(''dashboard-app'', Num (1 / 2)), (''journal-app'', Num (2 / 5))]"
  by (simp add: example_registry matcher_example journal_template_def dashboard_template_def)

text \<open>
  Claim C4, at an input where the code departs from it. The requirements name the input
  source \<^verbatim>\<open>constructor\<close>. \<^verbatim>\<open>inputMap["constructor"]\<close> is not a missing key: the object
  literal inherits \<^verbatim>\<open>Object.prototype.constructor\<close>, a function, which \<^verbatim>\<open>|| []\<close> keeps and
  which has no \<^verbatim>\<open>some\<close>. With a registry of two templates, \<open>templateSupportsInput\<close> throws
  a \<^verbatim>\<open>TypeError\<close> while the first template is scored, and \<open>selectTemplateForJTBD\<close> raises
  it: no template is selected and no fallback decision is returned. The same requirements
  with the input source \<^verbatim>\<open>upload\<close> select \<^verbatim>\<open>journal-app\<close> (\<open>selectTemplateForJTBD_journal\<close>);
  the output tag \<^verbatim>\<open>__proto__\<close> throws in the same way.
\<close>

theorem selectTemplateForJTBD_prototype_tag_throws:
  "getAvailableTemplates example_env = [journal_template, dashboard_template]
   \<and> templateSupportsInput journal_template ''constructor'' =
       Inl (TypeError ''requiredCapabilities.some is not a function'')
   \<and> templateSupportsOutput journal_template ''__proto__'' =
       Inl (TypeError ''requiredCapabilities.some is not a function'')
   \<and> selectTemplateForJTBD example_env constructor_requirements =
       Inl (TypeError ''requiredCapabilities.some is not a function'')"
  by (simp add: example_registry matcher_example journal_template_def dashboard_template_def)

text \<open>
  Claim C3, at an input where the code departs from it. The claim puts every confidence
  score in \<open>[0, 1]\<close>. For the requirements the home page submits, whose three tag lists are
  empty, each coverage term is \<^verbatim>\<open>0 / 0\<close>, and \<open>calculateTemplateMatch\<close> yields \<open>NaN\<close> for the
  journal template: a value that is neither \<open>\<ge> 0\<close> nor \<open>\<le> 1\<close>. \<^verbatim>\<open>Math.min(_, 1.0)\<close> does not
  clamp it, and the selector then reports "best confidence: NaN%". (The rest of the claim
  holds on the code: see \<open>calculateTemplateMatch_range\<close> for requirements with three
  non-empty tag lists, \<open>ranked_matches_sorted\<close> and \<open>ranked_matches_stable\<close>.)
\<close>

theorem calculateTemplateMatch_empty_tags_NaN:
  "calculateTemplateMatch journal_template home_page_requirements = Inr NaN
   \<and> (\<exists>c. calculateTemplateMatch journal_template home_page_requirements = Inr c
         \<and> \<not> js_ge c (Num 0) \<and> \<not> js_ge (Num 1) c)
   \<and> (\<exists>res. selectTemplateForJTBD example_env home_page_requirements = Inr res
         \<and> sel_reasoning res =
             ''No template matches well enough (best confidence: NaN%). Will generate custom app using AI.'')"
  by (simp add: example_registry matcher_example journal_template_def dashboard_template_def)

text \<open>
  Claim C10. When the definitions directory cannot be read, \<open>getAvailableTemplates\<close> returns
  the empty list; and whenever it returns the empty list, \<open>selectTemplateForJTBD\<close> returns no
  selection result, neither a selection nor a fallback decision: reading the confidence of
  the missing best match throws a \<^verbatim>\<open>TypeError\<close>.
\<close>

theorem selectTemplateForJTBD_empty_registry:
  "(isl (readdirSync env (path_join [cwd env, ''templates'', ''definitions'']))
      \<longrightarrow> getAvailableTemplates env = [])
   \<and> (getAvailableTemplates env = []
      \<longrightarrow> selectTemplateForJTBD env r =
            Inl (TypeError ''Cannot read properties of undefined (reading confidence)''))"
  by (auto simp: getAvailableTemplates_def selectTemplateForJTBD_def ranked_matches_def
                 js_sort_Nil Let_def isl_def)

text \<open>The theorem at a worker without a definitions directory.\<close>

theorem selectTemplateForJTBD_empty_registry_witness:
  "isl (readdirSync bare_env (path_join [cwd bare_env, ''templates'', ''definitions'']))
   \<and> getAvailableTemplates bare_env = []
   \<and> selectTemplateForJTBD bare_env home_page_requirements =
       Inl (TypeError ''Cannot read properties of undefined (reading confidence)'')"
proof -
  have a: "isl (readdirSync bare_env (path_join [cwd bare_env, ''templates'', ''definitions'']))"
    by (simp add: bare_env_def)
  from selectTemplateForJTBD_empty_registry [of bare_env home_page_requirements] a
  show ?thesis by blast
qed

section \<open>Template Customizer entry\<close>

text \<open>
  Claim C8. When the definition file of the requested template cannot be read, or its
  content cannot be parsed, \<open>customizeTemplate\<close> rejects with the loader's error, and it has
  performed no effect by then: no progress post, no LLM call, nothing of the remainder of
  its body, whatever that remainder is. No \<^verbatim>\<open>catch\<close> lies between the loader and the
  caller; \<open>generateFallbackApp\<close>, which calls it for \<^verbatim>\<open>journal-app\<close>, passes the rejection on.
\<close>

theorem customizeTemplate_load_failure:
  assumes "readFileSync env (path_join [cwd env, ''templates'', ''definitions'', tplName @ ''.yaml''])
             = Inl e
           \<or> (\<exists>yamlText.
                 readFileSync env (path_join [cwd env, ''templates'', ''definitions'', tplName @ ''.yaml''])
                   = Inr yamlText
                 \<and> YAML_parse env yamlText = Inl e)"
  shows "customizeTemplate env body tplName userRequirements agentId =
           (Inl (Error (''Failed to load template definition for '' @ tplName @ '': ''
                         @ error_text e)), [])
       \<and> (tplName = ''journal-app'' \<longrightarrow>
            generateFallbackApp env body userRequirements =
              (Inl (Error (''Failed to load template definition for journal-app: ''
                            @ error_text e)), []))"
proof -
  from assms have "loadTemplateDefinition env tplName =
      Inl (Error (''Failed to load template definition for '' @ tplName @ '': '' @ error_text e))"
    by (auto simp: loadTemplateDefinition_def Let_def)
  then show ?thesis
    by (auto simp: customizeTemplate_def generateFallbackApp_def)
qed

text \<open>
  The theorem at a worker without the definition file, next to a worker that has it and
  enters the remainder of the body.
\<close>

theorem customizeTemplate_load_failure_witness:
  "readFileSync bare_env (path_join [cwd bare_env, ''templates'', ''definitions'', ''journal-app'' @ ''.yaml''])
     = Inl (Error ''ENOENT: no such file or directory, open'')
   \<and> customizeTemplate bare_env (\<lambda>templateDef u a. (Inr (name templateDef), [LLMCalled ''customizing'']))
        ''journal-app'' journal_requirements ''agent-1'' =
       (Inl (Error ''Failed to load template definition for journal-app: Error: ENOENT: no such file or directory, open''), [])
   \<and> customizeTemplate example_env (\<lambda>templateDef u a. (Inr (name templateDef), [LLMCalled ''customizing'']))
        ''journal-app'' journal_requirements ''agent-1'' =
       (Inr ''journal-app'', [LLMCalled ''customizing''])"
proof -
  have a: "readFileSync bare_env (path_join [cwd bare_env, ''templates'', ''definitions'', ''journal-app'' @ ''.yaml''])
     = Inl (Error ''ENOENT: no such file or directory, open'')"
    by (simp add: bare_env_def)
  have b: "customizeTemplate example_env (\<lambda>templateDef u a. (Inr (name templateDef), [LLMCalled ''customizing'']))
        ''journal-app'' journal_requirements ''agent-1'' =
       (Inr ''journal-app'', [LLMCalled ''customizing''])"
    by (simp add: customizeTemplate_def loadTemplateDefinition_def path_join_def example_env_def
                  journal_template_def)
  from customizeTemplate_load_failure [of bare_env "''journal-app''" "Error ''ENOENT: no such file or directory, open''"
      "\<lambda>templateDef u a. (Inr (name templateDef), [LLMCalled ''customizing''])" journal_requirements "''agent-1''"] a b
  show ?thesis by simp
qed

end
